theory Spec2Isabelle
  imports Complex_Main
begin

section \<open>Gesture pipeline (camera-gesture.js)\<close>

text \<open>
  The gesture labels are the string literals the classifier returns and the dispatcher
  switches on: 'none', 'point', 'draw', 'peace', 'palm', 'rock', 'three', 'tap', 'fist'.
\<close>

datatype gesture = GNone | GPoint | GDraw | GPeace | GPalm | GRock | GThree | GTap | GFist

text \<open>
  A landmark is an object with numeric fields x and y (the depth field is never read).
  Finite coordinates are reals; the classifier compares them exactly, and the rounding
  of its distance computations is not modelled.
\<close>

record landmark =
  lx :: real
  ly :: real

datatype js_error = TypeError

subsection \<open>recognizeGesture\<close>

definition indexExtended :: "landmark list \<Rightarrow> bool" where
  "indexExtended landmarks = (ly (landmarks ! 8) < ly (landmarks ! 6))"

definition middleExtended :: "landmark list \<Rightarrow> bool" where
  "middleExtended landmarks = (ly (landmarks ! 12) < ly (landmarks ! 10))"

definition ringExtended :: "landmark list \<Rightarrow> bool" where
  "ringExtended landmarks = (ly (landmarks ! 16) < ly (landmarks ! 14))"

definition pinkyExtended :: "landmark list \<Rightarrow> bool" where
  "pinkyExtended landmarks = (ly (landmarks ! 20) < ly (landmarks ! 18))"

definition thumbDistanceFromWrist :: "landmark list \<Rightarrow> real" where
  "thumbDistanceFromWrist landmarks =
     sqrt ((lx (landmarks ! 4) - lx (landmarks ! 0))\<^sup>2 + (ly (landmarks ! 4) - ly (landmarks ! 0))\<^sup>2)"

definition thumbExtended :: "landmark list \<Rightarrow> bool" where
  "thumbExtended landmarks = (thumbDistanceFromWrist landmarks > 0.1)"

definition extendedCount :: "landmark list \<Rightarrow> nat" where
  "extendedCount landmarks =
     length (filter (\<lambda>b. b)
       [indexExtended landmarks, middleExtended landmarks, ringExtended landmarks,
        pinkyExtended landmarks, thumbExtended landmarks])"

definition fingerDistance :: "landmark list \<Rightarrow> real" where
  "fingerDistance landmarks =
     sqrt ((lx (landmarks ! 8) - lx (landmarks ! 12))\<^sup>2 + (ly (landmarks ! 8) - ly (landmarks ! 12))\<^sup>2)"

text \<open>
  The function reads the fields of the landmarks at indices 0, 4, 6, 8, 10, 12, 14, 16,
  18 and 20. On an array with fewer than 21 entries \<open>landmarks[20]\<close> is undefined and
  reading its field throws, before any rule is tried.
  This is the variant of camera-gesture.js, with the thumbs-up rule.
\<close>

definition recognizeGesture :: "landmark list \<Rightarrow> js_error + gesture" where
  "recognizeGesture landmarks =
     (if length landmarks < 21 then Inl TypeError
      else Inr
       (if extendedCount landmarks \<ge> 4 then GPalm
        else if extendedCount landmarks = 1 \<and> indexExtended landmarks then GPoint
        else if extendedCount landmarks = 2 \<and> indexExtended landmarks \<and> middleExtended landmarks
          then (if fingerDistance landmarks < 0.08 then GDraw else GPeace)
        else if extendedCount landmarks = 3 \<and> indexExtended landmarks \<and> pinkyExtended landmarks
                \<and> thumbExtended landmarks then GRock
        else if extendedCount landmarks = 3 \<and> indexExtended landmarks \<and> middleExtended landmarks
                \<and> ringExtended landmarks then GThree
        else if extendedCount landmarks = 1 \<and> thumbExtended landmarks \<and> \<not> indexExtended landmarks
          then GTap
        else if indexExtended landmarks then GPoint
        else GNone))"

text \<open>The second variant of the detector (the unnamed source file) has no thumbs-up rule.\<close>

definition recognizeGesture_noTap :: "landmark list \<Rightarrow> js_error + gesture" where
  "recognizeGesture_noTap landmarks =
     (if length landmarks < 21 then Inl TypeError
      else Inr
       (if extendedCount landmarks \<ge> 4 then GPalm
        else if extendedCount landmarks = 1 \<and> indexExtended landmarks then GPoint
        else if extendedCount landmarks = 2 \<and> indexExtended landmarks \<and> middleExtended landmarks
          then (if fingerDistance landmarks < 0.08 then GDraw else GPeace)
        else if extendedCount landmarks = 3 \<and> indexExtended landmarks \<and> pinkyExtended landmarks
                \<and> thumbExtended landmarks then GRock
        else if extendedCount landmarks = 3 \<and> indexExtended landmarks \<and> middleExtended landmarks
                \<and> ringExtended landmarks then GThree
        else if indexExtended landmarks then GPoint
        else GNone))"

subsection \<open>getStableGesture\<close>

text \<open>
  \<open>Array.prototype.slice(-n)\<close>: the last n elements, the whole array when n exceeds the
  length, and also the whole array when n is 0 (\<open>slice(-0)\<close> is \<open>slice(0)\<close>).
\<close>

definition slice_neg :: "nat \<Rightarrow> 'a list \<Rightarrow> 'a list" where
  "slice_neg n xs = (if n = 0 then xs else drop (length xs - n) xs)"

text \<open>
  The result is \<open>None\<close> where the JavaScript returns \<open>undefined\<close>: with an empty history
  and a window of 0 the element at index \<open>length - 1\<close> does not exist, \<open>every\<close> holds on
  the empty slice, and that missing element is returned.
\<close>

definition getStableGesture :: "gesture list \<Rightarrow> nat \<Rightarrow> gesture option" where
  "getStableGesture gestureHistory gestureStabilityFrames =
     (if length gestureHistory < gestureStabilityFrames then Some GNone
      else
        let recentGesture = (if gestureHistory = [] then None else Some (last gestureHistory));
            isStable = list_all (\<lambda>g. Some g = recentGesture)
                         (slice_neg gestureStabilityFrames gestureHistory)
        in if isStable then recentGesture else Some GNone)"

text \<open>The history update of processGestures: push, then drop the oldest beyond the window.\<close>

definition pushGesture :: "gesture list \<Rightarrow> nat \<Rightarrow> gesture \<Rightarrow> gesture list" where
  "pushGesture gestureHistory gestureStabilityFrames g =
     (let h = gestureHistory @ [g]
      in if length h > gestureStabilityFrames then tl h else h)"

section \<open>JavaScript numbers\<close>

text \<open>
  Numbers are IEEE 754 doubles. Stroke coordinates come from landmark arithmetic and can
  be NaN or infinite; drawPoint guards against that. A number is therefore NaN, an
  infinity or a finite value. A finite value is a real, and every arithmetic operation
  rounds its exact result to the nearest double, ties to even, and gives an infinity when
  the rounded result leaves the range of doubles. The sign of zero is not modelled.
\<close>

datatype number = NaN | NegInf | Fin real | PosInf

text \<open>Rounding to the nearest integer, ties to even.\<close>

definition rne :: "real \<Rightarrow> int" where
  "rne y = (let f = \<lfloor>y\<rfloor>; d = y - of_int f
            in if d < 1 / 2 then f else if 1 / 2 < d then f + 1
               else if even f then f else f + 1)"

text \<open>The binary exponent of a positive real: \<open>2 powi expo x \<le> x < 2 powi (expo x + 1)\<close>.\<close>

function expo :: "real \<Rightarrow> int" where
  "expo x = (if x \<le> 0 then 0
             else if 2 \<le> x then expo (x / 2) + 1
             else if x < 1 then expo (x * 2) - 1
             else 0)"
  by pat_completeness auto
termination
proof (relation "measure (\<lambda>x. if 1 \<le> x then nat \<lceil>x\<rceil> else nat \<lceil>1 / x\<rceil> + 2)")
  show "wf (measure (\<lambda>x::real. if 1 \<le> x then nat \<lceil>x\<rceil> else nat \<lceil>1 / x\<rceil> + 2))"
    by simp
next
  fix x :: real
  assume "\<not> x \<le> 0" and x2: "2 \<le> x"
  have "\<lceil>x / 2\<rceil> \<le> \<lceil>x - 1\<rceil>" using x2 by (intro ceiling_mono) simp
  then have "\<lceil>x / 2\<rceil> < \<lceil>x\<rceil>" by simp
  moreover have "0 < \<lceil>x\<rceil>" using x2 by simp
  ultimately
  show "(x / 2, x) \<in> measure (\<lambda>x. if 1 \<le> x then nat \<lceil>x\<rceil> else nat \<lceil>1 / x\<rceil> + 2)"
    using x2 by simp
next
  fix x :: real
  assume x0: "\<not> x \<le> 0" and "\<not> 2 \<le> x" and x1: "x < 1"
  show "(x * 2, x) \<in> measure (\<lambda>x. if 1 \<le> x then nat \<lceil>x\<rceil> else nat \<lceil>1 / x\<rceil> + 2)"
  proof (cases "1 \<le> x * 2")
    case True
    have "\<lceil>x * 2\<rceil> \<le> 2" using x1 by (simp add: ceiling_le_iff)
    then have a: "nat \<lceil>x * 2\<rceil> \<le> 2" by simp
    have "0 < \<lceil>1 / x\<rceil>" using x0 by simp
    then have b: "0 < nat \<lceil>1 / x\<rceil>" by simp
    have "nat \<lceil>x * 2\<rceil> < nat \<lceil>1 / x\<rceil> + 2" using a b by linarith
    then show ?thesis using True x1 by simp
  next
    case False
    then have h: "2 < 1 / x" using x0 by (simp add: field_simps)
    have "1 / (x * 2) \<le> 1 / x - 1" using h x0 by (simp add: field_simps)
    then have "\<lceil>1 / (x * 2)\<rceil> \<le> \<lceil>1 / x - 1\<rceil>" by (rule ceiling_mono)
    then have "\<lceil>1 / (x * 2)\<rceil> < \<lceil>1 / x\<rceil>" by simp
    moreover have "0 < \<lceil>1 / x\<rceil>" using x0 by simp
    ultimately show ?thesis using False x1 by simp
  qed
qed

declare expo.simps [simp del]

text \<open>
  The nearest double: 53 significant bits, the least exponent -1022 (below it the
  spacing stays at \<open>2 powi (- 1074)\<close>), the exponent unbounded above.
\<close>

definition rnd :: "real \<Rightarrow> real" where
  "rnd x = (let q = 2 powi (max (expo \<bar>x\<bar>) (- 1022) - 52)
            in of_int (rne (x / q)) * q)"

text \<open>The result of an operation whose exact value is x.\<close>

definition dbl :: "real \<Rightarrow> number" where
  "dbl x = (let r = rnd x
            in if 2 ^ 1024 \<le> r then PosInf else if r \<le> - (2 ^ 1024) then NegInf else Fin r)"

fun isNaN :: "number \<Rightarrow> bool" where
  "isNaN NaN = True"
| "isNaN _ = False"

text \<open>Every comparison with NaN is false.\<close>

fun num_lt :: "number \<Rightarrow> number \<Rightarrow> bool" where
  "num_lt NaN _ = False"
| "num_lt _ NaN = False"
| "num_lt _ NegInf = False"
| "num_lt NegInf _ = True"
| "num_lt PosInf _ = False"
| "num_lt (Fin a) PosInf = True"
| "num_lt (Fin a) (Fin b) = (a < b)"

definition num_gt :: "number \<Rightarrow> number \<Rightarrow> bool" where
  "num_gt a b = num_lt b a"

fun num_neg :: "number \<Rightarrow> number" where
  "num_neg NaN = NaN"
| "num_neg NegInf = PosInf"
| "num_neg PosInf = NegInf"
| "num_neg (Fin a) = Fin (- a)"

fun num_add :: "number \<Rightarrow> number \<Rightarrow> number" where
  "num_add NaN _ = NaN"
| "num_add _ NaN = NaN"
| "num_add PosInf NegInf = NaN"
| "num_add NegInf PosInf = NaN"
| "num_add PosInf _ = PosInf"
| "num_add _ PosInf = PosInf"
| "num_add NegInf _ = NegInf"
| "num_add _ NegInf = NegInf"
| "num_add (Fin a) (Fin b) = dbl (a + b)"

definition num_sub :: "number \<Rightarrow> number \<Rightarrow> number" where
  "num_sub a b = num_add a (num_neg b)"

definition inf_of_sign :: "real \<Rightarrow> number" where
  "inf_of_sign a = (if a = 0 then NaN else if a > 0 then PosInf else NegInf)"

fun num_mul :: "number \<Rightarrow> number \<Rightarrow> number" where
  "num_mul NaN _ = NaN"
| "num_mul _ NaN = NaN"
| "num_mul (Fin a) (Fin b) = dbl (a * b)"
| "num_mul (Fin a) PosInf = inf_of_sign a"
| "num_mul (Fin a) NegInf = inf_of_sign (- a)"
| "num_mul PosInf (Fin b) = inf_of_sign b"
| "num_mul NegInf (Fin b) = inf_of_sign (- b)"
| "num_mul PosInf PosInf = PosInf"
| "num_mul PosInf NegInf = NegInf"
| "num_mul NegInf PosInf = NegInf"
| "num_mul NegInf NegInf = PosInf"

text \<open>
  Division. The divisors of the modelled code are the literal 2 and a step count of at
  least 1; a zero divisor is treated as positive zero.
\<close>

fun num_div :: "number \<Rightarrow> number \<Rightarrow> number" where
  "num_div NaN _ = NaN"
| "num_div _ NaN = NaN"
| "num_div (Fin a) (Fin b) = (if b = 0 then inf_of_sign a else dbl (a / b))"
| "num_div (Fin a) _ = Fin 0"
| "num_div PosInf (Fin b) = (if b \<ge> 0 then PosInf else NegInf)"
| "num_div NegInf (Fin b) = (if b \<ge> 0 then NegInf else PosInf)"
| "num_div _ _ = NaN"

fun num_sqrt :: "number \<Rightarrow> number" where
  "num_sqrt (Fin a) = (if a < 0 then NaN else dbl (sqrt a))"
| "num_sqrt PosInf = PosInf"
| "num_sqrt _ = NaN"

fun num_floor :: "number \<Rightarrow> number" where
  "num_floor (Fin a) = Fin (of_int \<lfloor>a\<rfloor>)"
| "num_floor n = n"

text \<open>\<open>Math.max\<close> is NaN as soon as one argument is.\<close>

definition num_max :: "number \<Rightarrow> number \<Rightarrow> number" where
  "num_max a b = (if isNaN a \<or> isNaN b then NaN else if num_lt a b then b else a)"

text \<open>The finite value of a number. It is only used behind the guard of drawPoint.\<close>

fun fin_val :: "number \<Rightarrow> real" where
  "fin_val (Fin a) = a"
| "fin_val _ = 0"

subsection \<open>Coordinate mapping of handleDrawingMovement\<close>

text \<open>
  handleDrawingMovement maps the index fingertip twice with the same formula: against the
  container rectangle (screenX, screenY) and against the canvas (canvasX, canvasY). The
  subtraction and the products are operations on doubles.
\<close>

definition mapLandmark :: "landmark \<Rightarrow> real \<Rightarrow> real \<Rightarrow> number \<times> number" where
  "mapLandmark indexTip width height =
     (num_mul (num_sub (Fin 1) (Fin (lx indexTip))) (Fin width),
      num_mul (Fin (ly indexTip)) (Fin height))"

section \<open>Shaders and blending (webgl-utils.js)\<close>

text \<open>
  The WebGL context is an external collaborator with state. The model keeps the part of
  that state the draws of the engine depend on: the program in use, the uniforms of each
  program, the texture bound to unit 0 and the blend function. A draw call runs the
  fragment shader of the program in use, with the uniforms of that program, on every
  pixel the primitive covers, and blends the result into the target. A uniform call
  made with a location of a program that is not in use fails and changes nothing.
  Colour components are reals; the 8-bit quantisation of the render targets and the
  single precision of the shaders are not modelled.
\<close>

datatype vec4 = Vec4 (vr: real) (vg: real) (vb: real) (va: real)

type_synonym pixel = "int \<times> int"
type_synonym texture = "pixel \<Rightarrow> vec4"

text \<open>GLSL built-ins used by the shaders.\<close>

definition mix :: "vec4 \<Rightarrow> vec4 \<Rightarrow> real \<Rightarrow> vec4" where
  "mix u v t = Vec4 (vr u * (1 - t) + vr v * t) (vg u * (1 - t) + vg v * t)
                    (vb u * (1 - t) + vb v * t) (va u * (1 - t) + va v * t)"

definition clamp :: "real \<Rightarrow> real \<Rightarrow> real \<Rightarrow> real" where
  "clamp v lo hi = min (max v lo) hi"

definition smoothstep :: "real \<Rightarrow> real \<Rightarrow> real \<Rightarrow> real" where
  "smoothstep edge0 edge1 v =
     (let t = clamp ((v - edge0) / (edge1 - edge0)) 0 1 in t * t * (3 - 2 * t))"

definition distance :: "real \<times> real \<Rightarrow> real \<times> real \<Rightarrow> real" where
  "distance p q = sqrt ((fst p - fst q)\<^sup>2 + (snd p - snd q)\<^sup>2)"

text \<open>\<open>gl_FragCoord.xy\<close> of a pixel is its centre.\<close>

definition fragCoord :: "pixel \<Rightarrow> real \<times> real" where
  "fragCoord p = (real_of_int (fst p) + 1 / 2, real_of_int (snd p) + 1 / 2)"

text \<open>
  FRAGMENT_SHADER_SOURCE. The shader samples the texture at the interpolated texture
  coordinate; the model samples it at the fragment's own pixel. The sample only counts
  where \<open>u_alpha\<close> is not 1, and 1 is the value copyTexture sets before every draw of
  the engine.
\<close>

definition FRAGMENT_SHADER :: "texture \<Rightarrow> vec4 \<Rightarrow> real \<Rightarrow> pixel \<Rightarrow> vec4" where
  "FRAGMENT_SHADER u_texture u_color u_alpha p = mix (u_texture p) u_color u_alpha"

definition BRUSH_FRAGMENT_SHADER :: "real \<times> real \<Rightarrow> real \<Rightarrow> vec4 \<Rightarrow> pixel \<Rightarrow> vec4" where
  "BRUSH_FRAGMENT_SHADER u_center u_radius u_color p =
     (let dist = distance (fragCoord p) u_center;
          alpha = 1 - smoothstep (u_radius - 1) (u_radius + 1) dist
      in Vec4 (vr u_color) (vg u_color) (vb u_color) (alpha * va u_color))"

definition ERASER_FRAGMENT_SHADER :: "real \<times> real \<Rightarrow> real \<Rightarrow> pixel \<Rightarrow> vec4" where
  "ERASER_FRAGMENT_SHADER u_center u_radius p =
     (let dist = distance (fragCoord p) u_center;
          alpha = smoothstep (u_radius - 1) (u_radius + 1) dist
      in Vec4 1 1 1 alpha)"

text \<open>
  VERTEX_SHADER_SOURCE with the identity for \<open>u_transform\<close>, as copyTexture sets it: the
  clip-space position of a vertex. The shader divides the vertex position by the
  resolution, so it takes the position for a pixel position with the y axis pointing down.
\<close>

definition VERTEX_SHADER :: "real \<times> real \<Rightarrow> real \<times> real \<Rightarrow> real \<times> real" where
  "VERTEX_SHADER u_resolution a_position =
     (((fst a_position / fst u_resolution) * 2 - 1) * 1,
      ((snd a_position / snd u_resolution) * 2 - 1) * (- 1))"

text \<open>The window position of a clip-space position under \<open>viewport(0, 0, w, h)\<close>.\<close>

definition toWindow :: "nat \<Rightarrow> nat \<Rightarrow> real \<times> real \<Rightarrow> real \<times> real" where
  "toWindow w h clip = ((fst clip + 1) / 2 * real w, (snd clip + 1) / 2 * real h)"

definition inViewport :: "nat \<Rightarrow> nat \<Rightarrow> pixel \<Rightarrow> bool" where
  "inViewport w h p = (0 \<le> fst p \<and> fst p < int w \<and> 0 \<le> snd p \<and> snd p < int h)"

text \<open>
  The pixels covered by the quad of setupBuffers, whose corners are (-1, -1) and (1, 1):
  those of the w by h surface whose centre lies in the rectangle spanned by the window
  positions of the corners.
\<close>

definition quadCoverage :: "nat \<Rightarrow> nat \<Rightarrow> pixel \<Rightarrow> bool" where
  "quadCoverage w h p =
     (let a = toWindow w h (VERTEX_SHADER (real w, real h) (- 1, - 1));
          b = toWindow w h (VERTEX_SHADER (real w, real h) (1, 1));
          c = fragCoord p
      in inViewport w h p
         \<and> min (fst a) (fst b) \<le> fst c \<and> fst c \<le> max (fst a) (fst b)
         \<and> min (snd a) (snd b) \<le> snd c \<and> snd c \<le> max (snd a) (snd b))"

text \<open>
  The pixels covered by the circle buffer of setupBuffers drawn as a triangle fan. The
  buffer holds 33 points of the unit circle (drawArrays is asked for 34 vertices; the
  fan is taken over the 33 the buffer holds), and the vertex shader moves them without
  changing distances, so the fan is the 32-gon inscribed in the circle of radius 1
  around the window position of the origin. That position has whole coordinates and
  pixel centres have half ones, so no pixel centre lies between the polygon and the
  circle: a pixel is covered exactly when its centre is less than 1 away from the window
  position of the origin.
\<close>

definition circleCoverage :: "nat \<Rightarrow> nat \<Rightarrow> pixel \<Rightarrow> bool" where
  "circleCoverage w h p =
     (inViewport w h p
      \<and> distance (fragCoord p) (toWindow w h (VERTEX_SHADER (real w, real h) (0, 0))) < 1)"

datatype blend_factor = ZERO | SRC_ALPHA | ONE_MINUS_SRC_ALPHA

fun factor :: "blend_factor \<Rightarrow> vec4 \<Rightarrow> real" where
  "factor ZERO src = 0"
| "factor SRC_ALPHA src = va src"
| "factor ONE_MINUS_SRC_ALPHA src = 1 - va src"

text \<open>
  \<open>blendFunc(sfactor, dfactor)\<close> with the default equation: every channel, alpha
  included, becomes \<open>src * sfactor + dst * dfactor\<close>.
\<close>

definition blend :: "blend_factor \<times> blend_factor \<Rightarrow> vec4 \<Rightarrow> vec4 \<Rightarrow> vec4" where
  "blend bf src dst =
     (let sf = factor (fst bf) src; df = factor (snd bf) src
      in Vec4 (vr src * sf + vr dst * df) (vg src * sf + vg dst * df)
              (vb src * sf + vb dst * df) (va src * sf + va dst * df))"

text \<open>One draw call on a colour buffer: covered pixels are blended, the others kept.\<close>

definition rasterize ::
  "(pixel \<Rightarrow> bool) \<Rightarrow> blend_factor \<times> blend_factor \<Rightarrow> (pixel \<Rightarrow> vec4) \<Rightarrow> texture \<Rightarrow> texture" where
  "rasterize coverage bf frag target = (\<lambda>p. if coverage p then blend bf (frag p) (target p) else target p)"

text \<open>The three programs of initWebGL and the uniforms their fragment shaders read.\<close>

datatype program = MainProgram | BrushProgram | EraserProgram

record uniforms =
  uni_center :: "real \<times> real"
  uni_radius :: real
  uni_color :: vec4
  uni_alpha :: real

definition fragmentShader :: "program \<Rightarrow> uniforms \<Rightarrow> texture \<Rightarrow> pixel \<Rightarrow> vec4" where
  "fragmentShader prog u tex =
     (case prog of
        MainProgram \<Rightarrow> FRAGMENT_SHADER tex (uni_color u) (uni_alpha u)
      | BrushProgram \<Rightarrow> BRUSH_FRAGMENT_SHADER (uni_center u) (uni_radius u) (uni_color u)
      | EraserProgram \<Rightarrow> ERASER_FRAGMENT_SHADER (uni_center u) (uni_radius u))"

section \<open>The drawing engine (drawing-engine.js)\<close>

datatype tool = Pen | Eraser

text \<open>References to the two textures, their framebuffers and the canvas (\<open>null\<close>).\<close>

datatype texture_ref = FrontTexture | BackTexture

datatype framebuffer_ref = FrontFramebuffer | BackFramebuffer | DefaultFramebuffer

text \<open>The draw calls issued to the context, in order: the quad of copyTexture with its
  source and target, and the triangle fan of a stamp.\<close>

datatype draw_call = DrawQuad texture_ref framebuffer_ref | DrawFan tool

text \<open>
  The fields of the class, and the state of the context. frontTexture and backTexture
  hold the contents of the two render targets; each framebuffer is attached to its
  texture and swapBuffers swaps both pairs together, so the framebuffers need no fields
  of their own. \<open>screen\<close> is the canvas. quadBuffer and circleBuffer stand for the pixels
  covered when the buffer of that name is drawn. Of the context: blendFunc is the blend
  function in force, currentProgram the program in use (none before the first
  useProgram), programUniforms the uniforms of each program, boundTexture the texture
  bound to unit 0. drawCalls records the draw calls made so far. Coordinates are
  numbers; pressures are finite and the brush size is an integer.
\<close>

record engine =
  canvas_width :: nat
  canvas_height :: nat
  currentTool :: tool
  currentColor :: vec4
  brushSize :: int
  isDrawing :: bool
  lastPoint :: "(number \<times> number) option"
  pressure :: real
  strokePoints :: "(number \<times> number \<times> real) list"
  smoothingFactor :: real
  frontTexture :: texture
  backTexture :: texture
  screen :: texture
  blendFunc :: "blend_factor \<times> blend_factor"
  currentProgram :: "program option"
  programUniforms :: "program \<Rightarrow> uniforms"
  boundTexture :: texture_ref
  quadBuffer :: "pixel \<Rightarrow> bool"
  circleBuffer :: "pixel \<Rightarrow> bool"
  drawCalls :: "draw_call list"

definition texture_of :: "engine \<Rightarrow> texture_ref \<Rightarrow> texture" where
  "texture_of s t = (case t of FrontTexture \<Rightarrow> frontTexture s | BackTexture \<Rightarrow> backTexture s)"

definition render_to :: "framebuffer_ref \<Rightarrow> (texture \<Rightarrow> texture) \<Rightarrow> engine \<Rightarrow> engine" where
  "render_to fb f s =
     (case fb of
        FrontFramebuffer \<Rightarrow> s\<lparr>frontTexture := f (frontTexture s)\<rparr>
      | BackFramebuffer \<Rightarrow> s\<lparr>backTexture := f (backTexture s)\<rparr>
      | DefaultFramebuffer \<Rightarrow> s\<lparr>screen := f (screen s)\<rparr>)"

text \<open>\<open>gl.useProgram\<close>.\<close>

definition useProgram :: "engine \<Rightarrow> program \<Rightarrow> engine" where
  "useProgram s prog = s\<lparr>currentProgram := Some prog\<rparr>"

text \<open>
  A \<open>gl.uniform...\<close> call with a location of the program prog: it changes the uniforms of
  that program when the program is in use, and nothing otherwise.
\<close>

definition uniform :: "program \<Rightarrow> (uniforms \<Rightarrow> uniforms) \<Rightarrow> engine \<Rightarrow> engine" where
  "uniform prog f s =
     (if currentProgram s = Some prog
      then s\<lparr>programUniforms := (programUniforms s)(prog := f (programUniforms s prog))\<rparr>
      else s)"

text \<open>
  \<open>gl.drawArrays\<close> on a vertex buffer, into a framebuffer: the fragments of the covered
  pixels are shaded by the program in use and blended. Without a program nothing is drawn.
\<close>

definition drawArrays :: "(pixel \<Rightarrow> bool) \<Rightarrow> framebuffer_ref \<Rightarrow> engine \<Rightarrow> engine" where
  "drawArrays coverage target s =
     (case currentProgram s of
        None \<Rightarrow> s
      | Some prog \<Rightarrow>
          render_to target
            (rasterize coverage (blendFunc s)
               (fragmentShader prog (programUniforms s prog) (texture_of s (boundTexture s)))) s)"

definition setTool :: "engine \<Rightarrow> tool \<Rightarrow> engine" where
  "setTool s t = s\<lparr>currentTool := t\<rparr>"

definition setBrushSize :: "engine \<Rightarrow> int \<Rightarrow> engine" where
  "setBrushSize s sz = s\<lparr>brushSize := sz\<rparr>"

text \<open>The literal 0.1 is the double nearest to one tenth.\<close>

definition setPressure :: "engine \<Rightarrow> real \<Rightarrow> engine" where
  "setPressure s p = s\<lparr>pressure := max (rnd (1 / 10)) (min 1 p)\<rparr>"

text \<open>
  copyTexture: the target framebuffer is bound, the main program put in use, the source
  texture bound, \<open>u_color = (1, 1, 1, 1)\<close> and \<open>u_alpha = 1\<close> set, and the quad drawn.
\<close>

definition copyTexture :: "engine \<Rightarrow> texture_ref \<Rightarrow> framebuffer_ref \<Rightarrow> engine" where
  "copyTexture s sourceTexture targetFramebuffer =
     (let s1 = (useProgram s MainProgram)\<lparr>boundTexture := sourceTexture\<rparr>;
          s2 = uniform MainProgram (\<lambda>u. u\<lparr>uni_color := Vec4 1 1 1 1, uni_alpha := 1\<rparr>) s1;
          s3 = drawArrays (quadBuffer s2) targetFramebuffer s2
      in s3\<lparr>drawCalls := drawCalls s3 @ [DrawQuad sourceTexture targetFramebuffer]\<rparr>)"

definition renderToScreen :: "engine \<Rightarrow> engine" where
  "renderToScreen s = copyTexture s BackTexture DefaultFramebuffer"

text \<open>
  swapBuffers exchanges the two textures. The texture bound to unit 0 stays the same
  object, which the other field now refers to.
\<close>

definition swapBuffers :: "engine \<Rightarrow> engine" where
  "swapBuffers s =
     s\<lparr>frontTexture := backTexture s, backTexture := frontTexture s,
       boundTexture := (case boundTexture s of FrontTexture \<Rightarrow> BackTexture
                                            | BackTexture \<Rightarrow> FrontTexture)\<rparr>"

text \<open>\<open>gl.clear\<close> writes the clear colour to every pixel of the bound framebuffer.\<close>

definition clear :: "engine \<Rightarrow> engine" where
  "clear s = renderToScreen
     (s\<lparr>frontTexture := (\<lambda>p. Vec4 1 1 1 1), backTexture := (\<lambda>p. Vec4 1 1 1 1)\<rparr>)"

definition invalidCoordinates :: "engine \<Rightarrow> number \<Rightarrow> number \<Rightarrow> bool" where
  "invalidCoordinates s x y =
     (isNaN x \<or> isNaN y \<or> num_lt x (Fin 0) \<or> num_lt y (Fin 0)
      \<or> num_gt x (Fin (real (canvas_width s))) \<or> num_gt y (Fin (real (canvas_height s))))"

text \<open>The program and the locations drawPoint selects for the tool.\<close>

definition toolProgram :: "engine \<Rightarrow> program" where
  "toolProgram s = (if currentTool s = Eraser then EraserProgram else BrushProgram)"

text \<open>
  The stamp of drawPoint (from the uniforms to the restored blend function): the uniform
  calls for the centre with its y axis flipped, the radius and, for the pen, the colour
  with the pressure as alpha, all with the locations of the tool's program; the blend
  function of the tool; and the triangle fan, drawn into the back framebuffer that
  copyTexture has left bound.
\<close>

definition stamp :: "engine \<Rightarrow> real \<Rightarrow> real \<Rightarrow> engine" where
  "stamp s x y =
     (let s1 = uniform (toolProgram s)
                 (\<lambda>u. u\<lparr>uni_center := (x, rnd (real (canvas_height s) - y)),
                        uni_radius := rnd (real_of_int (brushSize s) * pressure s)\<rparr>) s;
          s2 = (if currentTool s \<noteq> Eraser
                then uniform (toolProgram s)
                       (\<lambda>u. u\<lparr>uni_color := Vec4 (vr (currentColor s)) (vg (currentColor s))
                                              (vb (currentColor s)) (pressure s)\<rparr>) s1
                else s1);
          s3 = s2\<lparr>blendFunc := (if currentTool s = Eraser then (ZERO, ONE_MINUS_SRC_ALPHA)
                                  else (SRC_ALPHA, ONE_MINUS_SRC_ALPHA))\<rparr>;
          s4 = (drawArrays (circleBuffer s3) BackFramebuffer s3)
                 \<lparr>drawCalls := drawCalls s3 @ [DrawFan (currentTool s3)]\<rparr>
      in s4\<lparr>blendFunc := (SRC_ALPHA, ONE_MINUS_SRC_ALPHA)\<rparr>)"

text \<open>
  drawPoint: the guard, the tool's program put in use, the copy of the front texture
  into the back framebuffer (which puts the main program in use), the stamp, and the
  presentation on the canvas.
\<close>

definition drawPoint :: "engine \<Rightarrow> number \<Rightarrow> number \<Rightarrow> engine" where
  "drawPoint s x y =
     (if invalidCoordinates s x y then s
      else renderToScreen
             (stamp (copyTexture (useProgram s (toolProgram s)) FrontTexture BackFramebuffer)
                (fin_val x) (fin_val y)))"

text \<open>
  drawLine. The counter of the loop \<open>for (i = 0; i <= steps; i++)\<close> is a double: it
  counts exactly up to \<open>2 ^ 53\<close> and stays there. The loop does not run when steps is NaN
  and does not end when steps is Infinity or at least \<open>2 ^ 53\<close> (the result is \<open>None\<close>);
  otherwise it runs for i = 0, ..., floor(steps). (steps is the maximum of 1 and a
  floor, so a finite steps is a whole number of at least 1.) The square \<open>d ** 2\<close> is
  taken as the rounded product of d with itself.
\<close>

definition drawLine_body ::
  "number \<Rightarrow> number \<Rightarrow> number \<Rightarrow> number \<Rightarrow> number \<Rightarrow> nat \<Rightarrow> engine \<Rightarrow> engine" where
  "drawLine_body x1 y1 x2 y2 steps i s =
     (let t = num_div (Fin (real i)) steps;
          x = num_add x1 (num_mul (num_sub x2 x1) t);
          y = num_add y1 (num_mul (num_sub y2 y1) t)
      in drawPoint s x y)"

definition drawLine :: "engine \<Rightarrow> number \<Rightarrow> number \<Rightarrow> number \<Rightarrow> number \<Rightarrow> engine option" where
  "drawLine s x1 y1 x2 y2 =
     (let dist = num_sqrt (num_add (num_mul (num_sub x2 x1) (num_sub x2 x1))
                                   (num_mul (num_sub y2 y1) (num_sub y2 y1)));
          steps = num_max (Fin 1) (num_floor (num_div dist (Fin 2)))
      in case steps of
           NaN \<Rightarrow> Some s
         | PosInf \<Rightarrow> None
         | NegInf \<Rightarrow> Some s
         | Fin n \<Rightarrow>
             if 2 ^ 53 \<le> n then None
             else Some (if n < 0 then s
                        else fold (drawLine_body x1 y1 x2 y2 steps) [0 ..< Suc (nat \<lfloor>n\<rfloor>)] s))"

definition smoothPoint :: "engine \<Rightarrow> number \<Rightarrow> number \<Rightarrow> number \<times> number" where
  "smoothPoint s x y =
     (if length (strokePoints s) < 2 then (x, y)
      else
        let lastP = last (strokePoints s);
            smoothX = num_add (fst lastP)
                        (num_mul (num_sub x (fst lastP)) (Fin (smoothingFactor s)));
            smoothY = num_add (fst (snd lastP))
                        (num_mul (num_sub y (fst (snd lastP))) (Fin (smoothingFactor s)))
        in (smoothX, smoothY))"

definition startStroke :: "engine \<Rightarrow> number \<Rightarrow> number \<Rightarrow> real \<Rightarrow> engine" where
  "startStroke s x y p =
     drawPoint
       (setPressure (s\<lparr>isDrawing := True, lastPoint := Some (x, y), strokePoints := [(x, y, p)]\<rparr>) p)
       x y"

definition continueStroke :: "engine \<Rightarrow> number \<Rightarrow> number \<Rightarrow> real \<Rightarrow> engine option" where
  "continueStroke s x y p =
     (if \<not> isDrawing s then Some s
      else
        let s1 = setPressure s p;
            smoothedPoint = smoothPoint s1 x y;
            s2 = s1\<lparr>strokePoints := strokePoints s1 @ [(fst smoothedPoint, snd smoothedPoint, p)]\<rparr>
        in case lastPoint s2 of
             None \<Rightarrow> Some (s2\<lparr>lastPoint := Some smoothedPoint\<rparr>)
           | Some lp \<Rightarrow>
               map_option (\<lambda>s3. s3\<lparr>lastPoint := Some smoothedPoint\<rparr>)
                 (drawLine s2 (fst lp) (snd lp) (fst smoothedPoint) (snd smoothedPoint)))"

definition endStroke :: "engine \<Rightarrow> engine" where
  "endStroke s = swapBuffers (s\<lparr>isDrawing := False, lastPoint := None, strokePoints := []\<rparr>)"

text \<open>
  The constructor, for a w by h canvas on which a WebGL context exists. The canvas
  starts transparent, no program is in use, the uniforms are zero, the back texture is
  the one bound last, and the two vertex buffers cover what the vertex shader makes of
  their data on a surface of that size. It ends with \<open>clear()\<close>.
\<close>

definition DrawingEngine :: "nat \<Rightarrow> nat \<Rightarrow> engine" where
  "DrawingEngine w h =
     clear \<lparr>canvas_width = w, canvas_height = h, currentTool = Pen,
            currentColor = Vec4 0 0 0 1, brushSize = 5, isDrawing = False, lastPoint = None,
            pressure = 1, strokePoints = [], smoothingFactor = rnd (1 / 10),
            frontTexture = (\<lambda>p. Vec4 1 1 1 1), backTexture = (\<lambda>p. Vec4 1 1 1 1),
            screen = (\<lambda>p. Vec4 0 0 0 0), blendFunc = (SRC_ALPHA, ONE_MINUS_SRC_ALPHA),
            currentProgram = None,
            programUniforms = (\<lambda>prog. \<lparr>uni_center = (0, 0), uni_radius = 0,
                                        uni_color = Vec4 0 0 0 0, uni_alpha = 0\<rparr>),
            boundTexture = BackTexture,
            quadBuffer = quadCoverage w h, circleBuffer = circleCoverage w h,
            drawCalls = []\<rparr>"


section \<open>Brush size in the application controller (main.js)\<close>

text \<open>The fields of DrawingApp that the brush size passes through.\<close>

record app =
  app_brushSize :: int
  drawingEngine :: "engine option"

definition app_setBrushSize :: "app \<Rightarrow> int \<Rightarrow> app" where
  "app_setBrushSize a sz =
     a\<lparr>app_brushSize := sz,
       drawingEngine := map_option (\<lambda>e. setBrushSize e sz) (drawingEngine a)\<rparr>"

text \<open>
  The two brush-size cases of handleKeyboard. The other keys act on parts of the
  application outside this model; for them the result is \<open>None\<close>.
\<close>

definition handleKeyboard :: "app \<Rightarrow> string \<Rightarrow> app option" where
  "handleKeyboard a key =
     (if key = ''['' then Some (app_setBrushSize a (max 1 (app_brushSize a - 1)))
      else if key = '']'' then Some (app_setBrushSize a (min 50 (app_brushSize a + 1)))
      else None)"
section \<open>Notions used to state the properties\<close>

text \<open>The window condition of the stability filter: at least n labels, the last n equal.\<close>

definition windowUniform :: "nat \<Rightarrow> gesture list \<Rightarrow> bool" where
  "windowUniform n h = (n \<le> length h \<and> list_all (\<lambda>g. g = last h) (drop (length h - n) h))"

fun num_finite :: "number \<Rightarrow> bool" where
  "num_finite (Fin a) = True"
| "num_finite _ = False"

text \<open>A real that is a double: rounding leaves it alone.\<close>

definition is_double :: "real \<Rightarrow> bool" where
  "is_double x = (rnd x = x)"

text \<open>The seed is the quad drawn from the front texture into the back framebuffer.\<close>

definition seedCount :: "engine \<Rightarrow> nat" where
  "seedCount s = length (filter (\<lambda>c. c = DrawQuad FrontTexture BackFramebuffer) (drawCalls s))"

fun isFan :: "draw_call \<Rightarrow> bool" where
  "isFan (DrawFan t) = True"
| "isFan _ = False"

definition stampCount :: "engine \<Rightarrow> nat" where
  "stampCount s = length (filter isFan (drawCalls s))"

text \<open>The engine inside drawPoint, after the seed and before the stamp.\<close>

definition seeded :: "engine \<Rightarrow> engine" where
  "seeded s = copyTexture (useProgram s (toolProgram s)) FrontTexture BackFramebuffer"

text \<open>
  What the constructor establishes and every method keeps: the blend function is the one
  drawPoint restores, and the two vertex buffers cover what the vertex shader makes of
  their data on the canvas.
\<close>

definition engineInvariant :: "engine \<Rightarrow> bool" where
  "engineInvariant s =
     (blendFunc s = (SRC_ALPHA, ONE_MINUS_SRC_ALPHA)
      \<and> quadBuffer s = quadCoverage (canvas_width s) (canvas_height s)
      \<and> circleBuffer s = circleCoverage (canvas_width s) (canvas_height s))"

text \<open>A concrete engine: the one the constructor makes on an 800 by 600 canvas.\<close>

definition engine0 :: engine where
  "engine0 = DrawingEngine 800 600"

text \<open>An open hand seen from the front: four fingers up, the thumb tip on the wrist.\<close>

definition hand4 :: "landmark list" where
  "hand4 = map (\<lambda>i. \<lparr>lx = 1 / 2, ly = (if i \<in> {8, 12, 16, 20::nat} then 1 / 5 else 1 / 2)\<rparr>) [0 ..< 21]"

definition app0 :: app where
  "app0 = \<lparr>app_brushSize = 5, drawingEngine = Some engine0\<rparr>"

text \<open>A stroke begun on the concrete engine at (10, 10).\<close>

definition strokeA :: engine where
  "strokeA = startStroke engine0 (Fin 10) (Fin 10) 1"

text \<open>The state of a stroke with two recorded points.\<close>

definition twoPoints :: engine where
  "twoPoints = strokeA\<lparr>strokePoints := [(Fin 10, Fin 10, 1), (Fin 20, Fin 10, 1)],
                        lastPoint := Some (Fin 20, Fin 10)\<rparr>"




text \<open>The landmark at x = 0.1, the double nearest to one tenth, and its mirror image.\<close>

definition tenth :: landmark where
  "tenth = \<lparr>lx = rnd (1 / 10), ly = 1 / 2\<rparr>"

definition tenthMirrored :: landmark where
  "tenthMirrored = \<lparr>lx = rnd (1 - rnd (1 / 10)), ly = 1 / 2\<rparr>"

section \<open>Properties of the gesture pipeline\<close>

subsection \<open>Stability filter\<close>

lemma slice_neg_pos: "1 \<le> n \<Longrightarrow> slice_neg n xs = drop (length xs - n) xs"
  by (simp add: slice_neg_def)

lemma getStableGesture_eq:
  assumes "1 \<le> n"
  shows "getStableGesture h n = Some (if windowUniform n h then last h else GNone)"
proof (cases "length h < n")
  case True
  then show ?thesis by (simp add: getStableGesture_def windowUniform_def)
next
  case False
  with assms have ne: "h \<noteq> []" by auto
  from assms have sl: "slice_neg n h = drop (length h - n) h" by (rule slice_neg_pos)
  from False ne sl show ?thesis
    by (simp add: getStableGesture_def windowUniform_def Let_def list_all_iff)
qed

text \<open>
  C1, as the code has it. For a window of at least 1 the stable gesture is the most
  recent label when the history holds at least that many labels and the last ones are
  all equal, and 'none' otherwise. The output therefore equals the most recent label
  exactly when the window is uniform or that label is itself 'none'. With a window of 1
  a non-empty history passes its latest label through, as does the history kept by
  processGestures after each push; with a window of 3 a history
  ending in A, A, B (A and B distinct) gives 'none' and one ending in B, B, B gives B.
\<close>

theorem getStableGesture_window:
  assumes "1 \<le> n"
  shows "getStableGesture h n = Some (if windowUniform n h then last h else GNone)
     \<and> (h \<noteq> [] \<longrightarrow>
          (getStableGesture h n = Some (last h) \<longleftrightarrow> windowUniform n h \<or> last h = GNone))
     \<and> (h \<noteq> [] \<longrightarrow> getStableGesture h 1 = Some (last h))
     \<and> getStableGesture (pushGesture h 1 g) 1 = Some g
     \<and> (A \<noteq> B \<longrightarrow> getStableGesture (pre @ [A, A, B]) 3 = Some GNone)
     \<and> getStableGesture (pre @ [B, B, B]) 3 = Some B"
proof -
  have e: "getStableGesture h n = Some (if windowUniform n h then last h else GNone)"
    using assms by (rule getStableGesture_eq)
  have i: "h \<noteq> [] \<longrightarrow>
      (getStableGesture h n = Some (last h) \<longleftrightarrow> windowUniform n h \<or> last h = GNone)"
    using e by auto
  have p: "h \<noteq> [] \<longrightarrow> getStableGesture h 1 = Some (last h)"
  proof
    assume "h \<noteq> []"
    then have "windowUniform 1 h"
      by (cases h rule: rev_cases) (simp_all add: windowUniform_def)
    then show "getStableGesture h 1 = Some (last h)" by (simp add: getStableGesture_eq)
  qed
  have q: "getStableGesture (pushGesture h 1 g) 1 = Some g"
  proof -
    have "pushGesture h 1 g \<noteq> [] \<and> last (pushGesture h 1 g) = g"
      by (cases h) (simp_all add: pushGesture_def Let_def)
    moreover have "k \<noteq> [] \<Longrightarrow> windowUniform 1 k" for k :: "gesture list"
      by (cases k rule: rev_cases) (simp_all add: windowUniform_def)
    ultimately show ?thesis by (simp add: getStableGesture_eq)
  qed
  have a: "A \<noteq> B \<longrightarrow> getStableGesture (pre @ [A, A, B]) 3 = Some GNone"
    by (simp add: getStableGesture_eq windowUniform_def)
  have b: "getStableGesture (pre @ [B, B, B]) 3 = Some B"
    by (simp add: getStableGesture_eq windowUniform_def)
  from e i p q a b show ?thesis by blast
qed

theorem getStableGesture_window_witness:
  "getStableGesture [GPalm, GPalm] 2 = Some GPalm
   \<and> getStableGesture [GPalm, GPalm] 1 = Some GPalm
   \<and> getStableGesture [GTap, GPoint, GPoint, GPalm] 3 = Some GNone
   \<and> getStableGesture [GTap, GPalm, GPalm, GPalm] 3 = Some GPalm"
  using getStableGesture_window [where n = 2 and h = "[GPalm, GPalm]" and g = GPalm
      and A = GPoint and B = GPalm and pre = "[GTap]"]
  by (simp add: windowUniform_def)

text \<open>
  The equivalence of C1 as it is worded fails: on the history 'point', 'none' with a
  window of 2 the output is 'none', which is the most recent label, although the last
  two labels differ.
\<close>

theorem getStableGesture_iff_counterexample:
  "getStableGesture [GPoint, GNone] 2 = Some (last [GPoint, GNone])
   \<and> \<not> windowUniform 2 [GPoint, GNone]"
  by (simp add: getStableGesture_def slice_neg_def windowUniform_def)

subsection \<open>Classifier\<close>

lemma extendedCount_four:
  "4 \<le> extendedCount landmarks \<longleftrightarrow>
     (indexExtended landmarks \<and> middleExtended landmarks \<and> ringExtended landmarks
        \<and> pinkyExtended landmarks)
   \<or> (indexExtended landmarks \<and> middleExtended landmarks \<and> ringExtended landmarks
        \<and> thumbExtended landmarks)
   \<or> (indexExtended landmarks \<and> middleExtended landmarks \<and> pinkyExtended landmarks
        \<and> thumbExtended landmarks)
   \<or> (indexExtended landmarks \<and> ringExtended landmarks \<and> pinkyExtended landmarks
        \<and> thumbExtended landmarks)
   \<or> (middleExtended landmarks \<and> ringExtended landmarks \<and> pinkyExtended landmarks
        \<and> thumbExtended landmarks)"
  by (auto simp: extendedCount_def)

text \<open>
  C2. On a landmark set of 21 points on which four of the five fingers are extended,
  whichever four they are and whatever the fifth does, extendedCount is at least 4 and
  both variants of the classifier return 'palm'. (The thumb counts as extended when its
  tip is more than 0.1 away from the wrist.)
\<close>

theorem recognizeGesture_palm:
  assumes "21 \<le> length landmarks"
    and "(indexExtended landmarks \<and> middleExtended landmarks \<and> ringExtended landmarks
            \<and> pinkyExtended landmarks)
       \<or> (indexExtended landmarks \<and> middleExtended landmarks \<and> ringExtended landmarks
            \<and> thumbExtended landmarks)
       \<or> (indexExtended landmarks \<and> middleExtended landmarks \<and> pinkyExtended landmarks
            \<and> thumbExtended landmarks)
       \<or> (indexExtended landmarks \<and> ringExtended landmarks \<and> pinkyExtended landmarks
            \<and> thumbExtended landmarks)
       \<or> (middleExtended landmarks \<and> ringExtended landmarks \<and> pinkyExtended landmarks
            \<and> thumbExtended landmarks)"
  shows "4 \<le> extendedCount landmarks
     \<and> recognizeGesture landmarks = Inr GPalm \<and> recognizeGesture_noTap landmarks = Inr GPalm"
proof -
  from assms(2) have "4 \<le> extendedCount landmarks" by (simp only: extendedCount_four)
  with assms(1) show ?thesis by (simp add: recognizeGesture_def recognizeGesture_noTap_def)
qed

lemma hand4_length: "length hand4 = 21"
  by (simp add: hand4_def)

lemma hand4_nth:
  "i < 21 \<Longrightarrow> hand4 ! i = \<lparr>lx = 1 / 2, ly = (if i \<in> {8, 12, 16, 20::nat} then 1 / 5 else 1 / 2)\<rparr>"
  by (simp add: hand4_def)

lemma hand4_fingers:
  "indexExtended hand4" "middleExtended hand4" "ringExtended hand4" "pinkyExtended hand4"
  "\<not> thumbExtended hand4"
  by (simp_all add: indexExtended_def middleExtended_def ringExtended_def
      pinkyExtended_def thumbExtended_def thumbDistanceFromWrist_def hand4_nth)

theorem recognizeGesture_palm_witness:
  "21 \<le> length hand4 \<and> 4 \<le> extendedCount hand4
   \<and> recognizeGesture hand4 = Inr GPalm \<and> recognizeGesture_noTap hand4 = Inr GPalm"
  using recognizeGesture_palm [of hand4] by (simp add: hand4_length hand4_fingers)

section \<open>Properties of double arithmetic\<close>

lemma expo_lower: "0 < x \<Longrightarrow> 2 powi (expo x) \<le> x"
proof (induction x rule: expo.induct)
  case (1 x)
  show ?case
  proof (cases "2 \<le> x")
    case True
    with "1.prems" have "2 powi (expo (x / 2)) \<le> x / 2" by (intro "1.IH"(1)) simp_all
    moreover have "expo x = expo (x / 2) + 1" using True "1.prems" by (simp add: expo.simps)
    ultimately show ?thesis by (simp add: power_int_add)
  next
    case False
    show ?thesis
    proof (cases "x < 1")
      case True
      with False "1.prems" have "2 powi (expo (x * 2)) \<le> x * 2" by (intro "1.IH"(2)) simp_all
      moreover have "expo x = expo (x * 2) - 1"
        using True False "1.prems" by (simp add: expo.simps)
      ultimately show ?thesis by (simp add: power_int_diff)
    next
      case b: False
      then have "expo x = 0" using False "1.prems" by (simp add: expo.simps)
      with b show ?thesis by simp
    qed
  qed
qed

lemma rne_of_int: "rne (of_int n) = n"
  by (simp add: rne_def)

lemma rne_le: "y \<le> of_int n \<Longrightarrow> rne y \<le> n"
proof -
  assume a: "y \<le> of_int n"
  show ?thesis
  proof (cases "y = of_int n")
    case True then show ?thesis by (simp add: rne_of_int)
  next
    case False
    with a have "y < of_int n" by simp
    then have "\<lfloor>y\<rfloor> < n" by (simp add: floor_less_iff)
    then have "\<lfloor>y\<rfloor> + 1 \<le> n" by simp
    moreover have "rne y \<le> \<lfloor>y\<rfloor> + 1" by (simp add: rne_def Let_def)
    ultimately show ?thesis by linarith
  qed
qed

lemma rne_ge: "of_int n \<le> y \<Longrightarrow> n \<le> rne y"
proof -
  assume "of_int n \<le> y"
  then have "n \<le> \<lfloor>y\<rfloor>" by (simp add: le_floor_iff)
  moreover have "\<lfloor>y\<rfloor> \<le> rne y" by (simp add: rne_def Let_def)
  ultimately show ?thesis by linarith
qed

lemma expo_le:
  assumes "\<bar>x\<bar> \<le> 2 ^ k"
  shows "expo \<bar>x\<bar> \<le> int k"
proof (cases "x = 0")
  case True
  then show ?thesis by (simp add: expo.simps)
next
  case False
  then have "2 powi (expo \<bar>x\<bar>) \<le> \<bar>x\<bar>" by (intro expo_lower) simp
  with assms have le: "(2::real) powi (expo \<bar>x\<bar>) \<le> 2 powi (int k)" by simp
  show ?thesis
  proof (rule ccontr)
    assume "\<not> expo \<bar>x\<bar> \<le> int k"
    then have "int k < expo \<bar>x\<bar>" by simp
    then have "(2::real) powi (int k) < 2 powi (expo \<bar>x\<bar>)"
      by (intro power_int_strict_increasing) simp_all
    with le show False by simp
  qed
qed

text \<open>Rounding does not leave an interval bounded by a power of two, nor change the sign.\<close>

lemma rnd_abs_le:
  assumes "\<bar>x\<bar> \<le> 2 ^ k"
  shows "\<bar>rnd x\<bar> \<le> 2 ^ k"
proof -
  define j where "j = max (expo \<bar>x\<bar>) (- 1022) - 52"
  define q :: real where "q = 2 powi j"
  define N :: int where "N = 2 ^ nat (int k - j)"
  have q0: "0 < q" by (simp add: q_def)
  have "expo \<bar>x\<bar> \<le> int k" using assms by (rule expo_le)
  then have jk: "j \<le> int k" by (simp add: j_def)
  have "(2::real) powi (int k) = 2 powi (int k - j) * 2 powi j"
    by (simp flip: power_int_add)
  also have "(2::real) powi (int k - j) = of_int N"
    using jk by (simp add: N_def power_int_nonneg_exp)
  finally have P: "(2::real) ^ k = of_int N * q" by (simp add: q_def)
  have r: "rnd x = of_int (rne (x / q)) * q"
    by (simp add: rnd_def j_def q_def Let_def)
  from assms have "x \<le> of_int N * q" "- (of_int N * q) \<le> x" using P by simp_all
  then have "x / q \<le> of_int N" "of_int (- N) \<le> x / q"
    using q0 by (simp_all add: field_simps)
  then have "rne (x / q) \<le> N" "- N \<le> rne (x / q)"
    by (simp_all add: rne_le rne_ge)
  then have "\<bar>rne (x / q)\<bar> \<le> N" by simp
  then have "\<bar>real_of_int (rne (x / q))\<bar> \<le> real_of_int N"
    by (metis of_int_abs of_int_le_iff)
  then have "\<bar>real_of_int (rne (x / q))\<bar> * q \<le> real_of_int N * q"
    using q0 by (intro mult_right_mono) simp_all
  then show ?thesis using q0 by (simp add: r P abs_mult)
qed

lemma rnd_nonneg: "0 \<le> x \<Longrightarrow> 0 \<le> rnd x"
proof -
  assume x: "0 \<le> x"
  define q :: real where "q = 2 powi (max (expo \<bar>x\<bar>) (- 1022) - 52)"
  have q0: "0 < q" by (simp add: q_def)
  have "of_int 0 \<le> x / q" using x q0 by simp
  then have "0 \<le> rne (x / q)" by (rule rne_ge)
  then have "0 \<le> of_int (rne (x / q)) * q" using q0 by simp
  then show ?thesis by (simp add: rnd_def q_def Let_def)
qed

text \<open>A whole multiple of a power of two with fewer than 54 bits is a double.\<close>

lemma rnd_fix:
  assumes "x = of_int m * 2 powi j" and "\<bar>m\<bar> < 2 ^ 53" and "- 1074 \<le> j"
  shows "rnd x = x"
proof (cases "m = 0")
  case True
  with assms(1) show ?thesis by (simp add: rnd_def rne_def)
next
  case False
  define e where "e = max (expo \<bar>x\<bar>) (- 1022) - 52"
  define q :: real where "q = 2 powi e"
  have q0: "0 < q" by (simp add: q_def)
  have x0: "0 < \<bar>x\<bar>" using False assms(1) by simp
  have "\<bar>x\<bar> = of_int \<bar>m\<bar> * 2 powi j" using assms(1) by (simp add: abs_mult)
  also have "\<dots> < 2 ^ 53 * 2 powi j"
  proof -
    have "real_of_int \<bar>m\<bar> < 2 ^ 53"
      using assms(2) by (metis of_int_less_numeral_power_cancel_iff)
    then show ?thesis by (intro mult_strict_right_mono) simp_all
  qed
  also have "\<dots> = 2 powi (53 + j)" by (simp add: power_int_add)
  finally have up: "\<bar>x\<bar> < 2 powi (53 + j)" .
  have "2 powi (expo \<bar>x\<bar>) \<le> \<bar>x\<bar>" using x0 by (rule expo_lower)
  with up have lt: "(2::real) powi (expo \<bar>x\<bar>) < 2 powi (53 + j)" by simp
  have "expo \<bar>x\<bar> < 53 + j"
  proof (rule ccontr)
    assume "\<not> expo \<bar>x\<bar> < 53 + j"
    then have "(2::real) powi (53 + j) \<le> 2 powi (expo \<bar>x\<bar>)"
      by (intro power_int_increasing) simp_all
    with lt show False by simp
  qed
  with assms(3) have ej: "e \<le> j" by (simp add: e_def)
  define n where "n = nat (j - e)"
  have "(2::real) powi j = 2 powi (j - e) * 2 powi e" by (simp flip: power_int_add)
  also have "(2::real) powi (j - e) = 2 ^ n" using ej by (simp add: n_def power_int_nonneg_exp)
  finally have "x = of_int (m * 2 ^ n) * q" using assms(1) by (simp add: q_def)
  then have xq: "x / q = of_int (m * 2 ^ n)" using q0 by simp
  have "rnd x = of_int (rne (x / q)) * q" by (simp add: rnd_def e_def q_def Let_def)
  also have "\<dots> = of_int (m * 2 ^ n) * q" unfolding xq rne_of_int ..
  also have "\<dots> = x" using xq q0 by (simp add: field_simps)
  finally show ?thesis .
qed

lemma rnd_of_int: "\<bar>m\<bar> < 2 ^ 53 \<Longrightarrow> rnd (of_int m) = of_int m"
  using rnd_fix [of "of_int m" m 0] by simp

lemma rnd_numerals:
  "rnd 0 = 0" "rnd 1 = 1" "rnd 2 = 2" "rnd 10 = 10" "rnd 20 = 20" "rnd 21 = 21" "rnd 30 = 30"
  using rnd_of_int [of 0] rnd_of_int [of 1] rnd_of_int [of 2] rnd_of_int [of 10]
    rnd_of_int [of 20] rnd_of_int [of 21] rnd_of_int [of 30]
  by simp_all

lemma dbl_Fin:
  assumes "\<bar>x\<bar> \<le> 2 ^ k" and "k \<le> 1023"
  shows "dbl x = Fin (rnd x)"
proof -
  have "\<bar>rnd x\<bar> \<le> 2 ^ k" using assms(1) by (rule rnd_abs_le)
  also have "(2::real) ^ k \<le> 2 ^ 1023" using assms(2) by (intro power_increasing) simp_all
  also have "(2::real) ^ 1023 < 2 ^ 1024" by (intro power_strict_increasing) simp_all
  finally have "\<bar>rnd x\<bar> < 2 ^ 1024" .
  then show ?thesis by (simp add: dbl_def Let_def abs_less_iff not_le)
qed

lemma dbl_numerals:
  "dbl 0 = Fin 0" "dbl 1 = Fin 1" "dbl 10 = Fin 10" "dbl 20 = Fin 20" "dbl 21 = Fin 21"
  using dbl_Fin [of 0 5] dbl_Fin [of 1 5] dbl_Fin [of 10 5] dbl_Fin [of 20 5] dbl_Fin [of 21 5]
  by (simp_all add: rnd_numerals)

text \<open>For a double between 1/2 and 1 the subtraction from 1 is exact.\<close>

lemma mirror_exact:
  assumes "is_double x" and "1 / 2 \<le> x" and "x \<le> 1"
  shows "rnd (1 - x) = 1 - x"
proof (cases "x = 1")
  case True
  then show ?thesis by (simp add: rnd_numerals)
next
  case False
  with assms(3) have x1: "x < 1" by simp
  have "expo (x * 2) = 0" using assms(2) x1 by (simp add: expo.simps)
  then have e: "expo \<bar>x\<bar> = - 1" using assms(2) x1 by (simp add: expo.simps)
  define M where "M = rne (x / 2 powi (- 53))"
  have xM: "x = of_int M * 2 powi (- 53)"
    using assms(1) by (simp add: is_double_def rnd_def e M_def Let_def)
  have p: "(2::real) powi (- 53) = 1 / 2 ^ 53" by (simp add: power_int_minus_divide)
  have "real_of_int M = x * 2 ^ 53" using xM by (simp add: p)
  then have "real_of_int M < 2 ^ 53" "2 ^ 52 \<le> real_of_int M" using x1 assms(2) by simp_all
  then have M1: "M < 2 ^ 53" and M2: "2 ^ 52 \<le> M"
    by (metis of_int_less_numeral_power_cancel_iff, metis numeral_power_le_of_int_cancel_iff)
  have "1 - x = of_int (2 ^ 53 - M) * 2 powi (- 53)" using xM by (simp add: p field_simps)
  moreover have "\<bar>2 ^ 53 - M\<bar> < 2 ^ 53" using M1 M2 by simp
  ultimately show ?thesis by (intro rnd_fix [of _ "2 ^ 53 - M" "- 53"]) simp_all
qed

lemma rnd_tenth: "rnd (1 / 10) = 3602879701896397 / 2 ^ 55"
  by (simp add: rnd_def expo.simps rne_def power_int_def power_one_over Let_def)

lemma rnd_nine_tenths: "rnd (1 - 3602879701896397 / 2 ^ 55) = 8106479329266893 / 2 ^ 53"
  by (simp add: rnd_def expo.simps rne_def power_int_def power_one_over Let_def)

lemma rnd_mirror_back: "rnd (1 - 8106479329266893 / 2 ^ 53) = 900719925474099 / 2 ^ 53"
  by (simp add: rnd_def expo.simps rne_def power_int_def power_one_over Let_def)

lemma rnd_mirror_back': "rnd (900719925474099 / 2 ^ 53) = 900719925474099 / 2 ^ 53"
  using rnd_fix [of "900719925474099 / 2 ^ 53" 900719925474099 "- 53"]
  by (simp add: power_int_minus_divide)

lemma num_sub_Fin: "num_sub (Fin a) (Fin b) = dbl (a - b)"
  by (simp add: num_sub_def)

section \<open>Properties of the drawing engine\<close>

subsection \<open>What each operation leaves alone\<close>

text \<open>
  The fragments of copyTexture: with \<open>u_alpha = 1\<close> the mix keeps nothing of the texture
  and gives \<open>u_color\<close>, which is white.
\<close>

lemma main_fragment:
  assumes "uni_color u = Vec4 1 1 1 1" and "uni_alpha u = 1"
  shows "fragmentShader MainProgram u tex p = Vec4 1 1 1 1"
  using assms by (simp add: fragmentShader_def FRAGMENT_SHADER_def mix_def)

lemma copyTexture_unfold:
  "copyTexture s a b =
     (render_to b (rasterize (quadBuffer s) (blendFunc s) (\<lambda>p. Vec4 1 1 1 1))
        (s\<lparr>currentProgram := Some MainProgram, boundTexture := a,
           programUniforms := (programUniforms s)
             (MainProgram := (programUniforms s MainProgram)
                \<lparr>uni_color := Vec4 1 1 1 1, uni_alpha := 1\<rparr>)\<rparr>))
       \<lparr>drawCalls := drawCalls s @ [DrawQuad a b]\<rparr>"
proof -
  have f: "fragmentShader MainProgram
             ((programUniforms s MainProgram)\<lparr>uni_color := Vec4 1 1 1 1, uni_alpha := 1\<rparr>) tex
           = (\<lambda>p. Vec4 1 1 1 1)" for tex
    by (rule ext) (simp add: main_fragment)
  show ?thesis
    unfolding copyTexture_def useProgram_def uniform_def drawArrays_def Let_def
    by (cases b) (simp_all add: f render_to_def)
qed

lemma copyTexture_frame:
  "canvas_width (copyTexture s a b) = canvas_width s"
  "canvas_height (copyTexture s a b) = canvas_height s"
  "currentTool (copyTexture s a b) = currentTool s"
  "currentColor (copyTexture s a b) = currentColor s"
  "brushSize (copyTexture s a b) = brushSize s"
  "isDrawing (copyTexture s a b) = isDrawing s"
  "lastPoint (copyTexture s a b) = lastPoint s"
  "pressure (copyTexture s a b) = pressure s"
  "strokePoints (copyTexture s a b) = strokePoints s"
  "smoothingFactor (copyTexture s a b) = smoothingFactor s"
  "blendFunc (copyTexture s a b) = blendFunc s"
  "quadBuffer (copyTexture s a b) = quadBuffer s"
  "circleBuffer (copyTexture s a b) = circleBuffer s"
  "drawCalls (copyTexture s a b) = drawCalls s @ [DrawQuad a b]"
  "currentProgram (copyTexture s a b) = Some MainProgram"
  "boundTexture (copyTexture s a b) = a"
  "uni_color (programUniforms (copyTexture s a b) MainProgram) = Vec4 1 1 1 1"
  "uni_alpha (programUniforms (copyTexture s a b) MainProgram) = 1"
  by (cases b; simp add: copyTexture_unfold render_to_def)+

lemma blend_white:
  "blend (SRC_ALPHA, ONE_MINUS_SRC_ALPHA) (Vec4 1 1 1 1) dst = Vec4 1 1 1 1"
  "blend (ZERO, ONE_MINUS_SRC_ALPHA) (Vec4 1 1 1 1) dst = Vec4 0 0 0 0"
  by (simp_all add: blend_def)

lemma copyTexture_textures:
  "backTexture (copyTexture s a BackFramebuffer) q =
     (if quadBuffer s q then blend (blendFunc s) (Vec4 1 1 1 1) (backTexture s q)
      else backTexture s q)"
  "frontTexture (copyTexture s a BackFramebuffer) = frontTexture s"
  "screen (copyTexture s a BackFramebuffer) = screen s"
  "backTexture (copyTexture s a DefaultFramebuffer) = backTexture s"
  "frontTexture (copyTexture s a DefaultFramebuffer) = frontTexture s"
  by (simp_all add: copyTexture_unfold render_to_def rasterize_def)

lemma stamp_frame:
  "canvas_width (stamp s x y) = canvas_width s"
  "canvas_height (stamp s x y) = canvas_height s"
  "currentTool (stamp s x y) = currentTool s"
  "currentColor (stamp s x y) = currentColor s"
  "brushSize (stamp s x y) = brushSize s"
  "isDrawing (stamp s x y) = isDrawing s"
  "lastPoint (stamp s x y) = lastPoint s"
  "pressure (stamp s x y) = pressure s"
  "strokePoints (stamp s x y) = strokePoints s"
  "smoothingFactor (stamp s x y) = smoothingFactor s"
  "blendFunc (stamp s x y) = (SRC_ALPHA, ONE_MINUS_SRC_ALPHA)"
  "quadBuffer (stamp s x y) = quadBuffer s"
  "circleBuffer (stamp s x y) = circleBuffer s"
  "frontTexture (stamp s x y) = frontTexture s"
  "screen (stamp s x y) = screen s"
  "drawCalls (stamp s x y) = drawCalls s @ [DrawFan (currentTool s)]"
  by (simp_all add: stamp_def uniform_def drawArrays_def render_to_def Let_def
      split: option.splits)


lemma stamp_program:
  assumes "currentProgram s = Some MainProgram"
  shows "currentProgram (stamp s x y) = Some MainProgram"
    and "programUniforms (stamp s x y) = programUniforms s"
    and "boundTexture (stamp s x y) = boundTexture s"
  using assms
  by (simp_all add: stamp_def toolProgram_def uniform_def drawArrays_def render_to_def Let_def)

lemma seeded_frame:
  "currentProgram (seeded s) = Some MainProgram"
  "uni_color (programUniforms (seeded s) MainProgram) = Vec4 1 1 1 1"
  "uni_alpha (programUniforms (seeded s) MainProgram) = 1"
  "currentTool (seeded s) = currentTool s"
  "circleBuffer (seeded s) = circleBuffer s"
  "quadBuffer (seeded s) = quadBuffer s"
  "frontTexture (seeded s) = frontTexture s"
  "backTexture (seeded s) q =
     (if quadBuffer s q then blend (blendFunc s) (Vec4 1 1 1 1) (backTexture s q)
      else backTexture s q)"
  by (simp_all add: seeded_def copyTexture_frame copyTexture_textures useProgram_def)


lemma drawPoint_frame:
  "canvas_width (drawPoint s x y) = canvas_width s"
  "canvas_height (drawPoint s x y) = canvas_height s"
  "currentTool (drawPoint s x y) = currentTool s"
  "currentColor (drawPoint s x y) = currentColor s"
  "brushSize (drawPoint s x y) = brushSize s"
  "isDrawing (drawPoint s x y) = isDrawing s"
  "lastPoint (drawPoint s x y) = lastPoint s"
  "pressure (drawPoint s x y) = pressure s"
  "strokePoints (drawPoint s x y) = strokePoints s"
  "smoothingFactor (drawPoint s x y) = smoothingFactor s"
  "quadBuffer (drawPoint s x y) = quadBuffer s"
  "circleBuffer (drawPoint s x y) = circleBuffer s"
  "frontTexture (drawPoint s x y) = frontTexture s"
  by (simp_all add: drawPoint_def renderToScreen_def copyTexture_frame copyTexture_textures
      stamp_frame useProgram_def)

lemma drawPoint_blendFunc:
  "blendFunc s = (SRC_ALPHA, ONE_MINUS_SRC_ALPHA) \<Longrightarrow>
     blendFunc (drawPoint s x y) = (SRC_ALPHA, ONE_MINUS_SRC_ALPHA)"
  by (simp add: drawPoint_def renderToScreen_def copyTexture_frame stamp_frame)


subsection \<open>The concrete engine\<close>

lemma engine0_fields:
  "isDrawing engine0 = False" "canvas_width engine0 = 800" "canvas_height engine0 = 600"
  "currentTool engine0 = Pen" "brushSize engine0 = 5" "pressure engine0 = 1"
  "smoothingFactor engine0 = rnd (1 / 10)" "strokePoints engine0 = []"
  "lastPoint engine0 = None"
  "blendFunc engine0 = (SRC_ALPHA, ONE_MINUS_SRC_ALPHA)"
  "quadBuffer engine0 = quadCoverage 800 600"
  "circleBuffer engine0 = circleCoverage 800 600" "currentColor engine0 = Vec4 0 0 0 1"
  "frontTexture engine0 = (\<lambda>p. Vec4 1 1 1 1)" "backTexture engine0 = (\<lambda>p. Vec4 1 1 1 1)"
  "drawCalls engine0 = [DrawQuad BackTexture DefaultFramebuffer]"
  by (simp_all add: engine0_def DrawingEngine_def clear_def renderToScreen_def
      copyTexture_frame copyTexture_textures)

subsection \<open>Brush size\<close>

text \<open>
  C9, as the code has it. setBrushSize, in the engine and in the application
  controller, stores the size it is given and clamps nothing. The bounds are kept by the
  keyboard shortcuts: from a size within 1 to 50, the bracket keys step to
  max 1 (size - 1) and min 50 (size + 1), which are within 1 to 50 again, and hand the
  same size to the engine.
\<close>

theorem setBrushSize_stores:
  "brushSize (setBrushSize s n) = n
   \<and> app_brushSize (app_setBrushSize a n) = n
   \<and> (1 \<le> app_brushSize a \<and> app_brushSize a \<le> 50 \<longrightarrow>
        (\<exists>a1 a2. handleKeyboard a ''['' = Some a1 \<and> handleKeyboard a '']'' = Some a2
           \<and> app_brushSize a1 = max 1 (app_brushSize a - 1)
           \<and> app_brushSize a2 = min 50 (app_brushSize a + 1)
           \<and> 1 \<le> app_brushSize a1 \<and> app_brushSize a1 \<le> 50
           \<and> 1 \<le> app_brushSize a2 \<and> app_brushSize a2 \<le> 50
           \<and> drawingEngine a1 = map_option (\<lambda>e. e\<lparr>brushSize := app_brushSize a1\<rparr>) (drawingEngine a)
           \<and> drawingEngine a2 = map_option (\<lambda>e. e\<lparr>brushSize := app_brushSize a2\<rparr>) (drawingEngine a)))"
  by (auto simp: setBrushSize_def app_setBrushSize_def handleKeyboard_def)

theorem setBrushSize_stores_witness:
  "map_option app_brushSize (handleKeyboard (app_setBrushSize app0 1) ''['') = Some 1
   \<and> map_option app_brushSize (handleKeyboard (app_setBrushSize app0 50) '']'') = Some 50"
  using setBrushSize_stores [of engine0 1 "app_setBrushSize app0 1"]
    setBrushSize_stores [of engine0 50 "app_setBrushSize app0 50"]
  by (auto simp: app_setBrushSize_def app0_def)

text \<open>C9 as it is worded fails: a size of 100 is stored as 100, in the controller and in the engine.\<close>

theorem setBrushSize_clamp_counterexample:
  "brushSize (setBrushSize engine0 100) = 100
   \<and> app_brushSize (app_setBrushSize app0 100) = 100
   \<and> map_option brushSize (drawingEngine (app_setBrushSize app0 100)) = Some 100"
  by (simp add: setBrushSize_def app_setBrushSize_def app0_def)

subsection \<open>continueStroke outside a stroke\<close>

text \<open>
  C10. While no stroke is in progress continueStroke returns at once: the engine, with
  lastPoint, strokePoints, pressure, tool state and both render targets, is unchanged.
\<close>

theorem continueStroke_not_drawing: "\<not> isDrawing s \<Longrightarrow> continueStroke s x y p = Some s"
  by (simp add: continueStroke_def)

theorem continueStroke_not_drawing_witness:
  "\<not> isDrawing engine0 \<and> continueStroke engine0 (Fin 10) PosInf (1 / 2) = Some engine0"
  using continueStroke_not_drawing [of engine0 "Fin 10" PosInf "1 / 2"]
  by (simp add: engine0_fields)

subsection \<open>Dropped stamps\<close>

lemma invalidCoordinates_iff:
  "invalidCoordinates s x y \<longleftrightarrow>
     \<not> num_finite x \<or> \<not> num_finite y \<or> fin_val x < 0 \<or> fin_val y < 0
      \<or> real (canvas_width s) < fin_val x \<or> real (canvas_height s) < fin_val y"
  by (cases x; cases y) (auto simp: invalidCoordinates_def num_gt_def)

text \<open>
  C5. A stamp whose centre has a coordinate that is NaN or infinite, or that lies outside
  [0, width] x [0, height], is dropped: drawPoint returns the engine as it was (it has no
  failing branch), so the back buffer is unchanged and a stroke in progress stays in
  progress. When the first point of a stroke is such a centre, startStroke still enters
  the drawing state and leaves the back buffer alone.
\<close>

theorem drawPoint_dropped:
  assumes "\<not> num_finite x \<or> \<not> num_finite y \<or> fin_val x < 0 \<or> fin_val y < 0
      \<or> real (canvas_width s) < fin_val x \<or> real (canvas_height s) < fin_val y"
  shows "drawPoint s x y = s
     \<and> backTexture (drawPoint s x y) = backTexture s
     \<and> isDrawing (drawPoint s x y) = isDrawing s
     \<and> backTexture (startStroke s x y p) = backTexture s
     \<and> isDrawing (startStroke s x y p)"
proof -
  have inv: "invalidCoordinates s x y" using assms by (simp add: invalidCoordinates_iff)
  then have d: "drawPoint s x y = s" by (simp add: drawPoint_def)
  let ?s1 = "setPressure (s\<lparr>isDrawing := True, lastPoint := Some (x, y),
                           strokePoints := [(x, y, p)]\<rparr>) p"
  have "invalidCoordinates ?s1 x y"
    using inv by (simp add: invalidCoordinates_def setPressure_def)
  then have st: "startStroke s x y p = ?s1" by (simp add: startStroke_def drawPoint_def)
  show ?thesis using d st by (simp add: setPressure_def)
qed

theorem drawPoint_dropped_witness:
  "drawPoint engine0 NaN (Fin 10) = engine0
   \<and> drawPoint engine0 (Fin 10) PosInf = engine0
   \<and> drawPoint engine0 (Fin 801) (Fin 10) = engine0
   \<and> isDrawing (startStroke engine0 (Fin 10) (Fin (- 1)) 1)
   \<and> backTexture (startStroke engine0 (Fin 10) (Fin (- 1)) 1) = backTexture engine0"
  using drawPoint_dropped [of NaN "Fin 10" engine0 1]
    drawPoint_dropped [of "Fin 10" PosInf engine0 1]
    drawPoint_dropped [of "Fin 801" "Fin 10" engine0 1]
    drawPoint_dropped [of "Fin 10" "Fin (- 1)" engine0 1]
  by (simp add: engine0_fields)


subsection \<open>Seeding\<close>

lemma drawPoint_calls:
  "drawCalls (drawPoint s x y) = drawCalls s @
     (if invalidCoordinates s x y then []
      else [DrawQuad FrontTexture BackFramebuffer, DrawFan (currentTool s),
            DrawQuad BackTexture DefaultFramebuffer])"
  by (simp add: drawPoint_def renderToScreen_def copyTexture_frame stamp_frame useProgram_def)

lemma drawPoint_counts:
  "seedCount (drawPoint s x y) = seedCount s + (if invalidCoordinates s x y then 0 else 1)"
  "stampCount (drawPoint s x y) = stampCount s + (if invalidCoordinates s x y then 0 else 1)"
  by (simp_all add: seedCount_def stampCount_def drawPoint_calls)

lemma drawPoint_balance:
  "seedCount (drawPoint s x y) + stampCount s = seedCount s + stampCount (drawPoint s x y)"
  by (simp add: drawPoint_counts)

lemma fold_body_balance:
  "seedCount (fold (drawLine_body x1 y1 x2 y2 st) is s) + stampCount s
     = seedCount s + stampCount (fold (drawLine_body x1 y1 x2 y2 st) is s)"
proof (induction "is" arbitrary: s)
  case Nil
  then show ?case by simp
next
  case (Cons i "is")
  let ?s1 = "drawLine_body x1 y1 x2 y2 st i s"
  have a: "seedCount ?s1 + stampCount s = seedCount s + stampCount ?s1"
    by (simp add: drawLine_body_def Let_def drawPoint_balance)
  have b: "seedCount (fold (drawLine_body x1 y1 x2 y2 st) is ?s1) + stampCount ?s1
     = seedCount ?s1 + stampCount (fold (drawLine_body x1 y1 x2 y2 st) is ?s1)"
    by (rule Cons.IH)
  from a b show ?case by simp
qed

lemma drawLine_balance:
  "drawLine s x1 y1 x2 y2 = Some s' \<Longrightarrow>
     seedCount s' + stampCount s = seedCount s + stampCount s'"
  by (auto simp: drawLine_def Let_def fold_body_balance simp del: upt_Suc
      split: number.splits if_splits)

lemma counts_update:
  "seedCount (s\<lparr>lastPoint := lp\<rparr>) = seedCount s"
  "stampCount (s\<lparr>lastPoint := lp\<rparr>) = stampCount s"
  "seedCount (s\<lparr>strokePoints := sp\<rparr>) = seedCount s"
  "stampCount (s\<lparr>strokePoints := sp\<rparr>) = stampCount s"
  "seedCount (s\<lparr>isDrawing := b\<rparr>) = seedCount s"
  "stampCount (s\<lparr>isDrawing := b\<rparr>) = stampCount s"
  "seedCount (setPressure s p) = seedCount s"
  "stampCount (setPressure s p) = stampCount s"
  by (simp_all add: seedCount_def stampCount_def setPressure_def)

lemma continueStroke_balance:
  assumes "continueStroke s x y p = Some s'"
  shows "seedCount s' + stampCount s = seedCount s + stampCount s'"
proof (cases "isDrawing s")
  case False
  with assms show ?thesis by (simp add: continueStroke_def)
next
  case True
  let ?s1 = "setPressure s p"
  let ?sp = "smoothPoint ?s1 x y"
  let ?s2 = "?s1\<lparr>strokePoints := strokePoints ?s1 @ [(fst ?sp, snd ?sp, p)]\<rparr>"
  show ?thesis
  proof (cases "lastPoint ?s2")
    case None
    with True assms have "s' = ?s2\<lparr>lastPoint := Some ?sp\<rparr>"
      by (simp add: continueStroke_def Let_def)
    then show ?thesis by (simp add: counts_update)
  next
    case (Some lp)
    with True assms obtain s3
      where d: "drawLine ?s2 (fst lp) (snd lp) (fst ?sp) (snd ?sp) = Some s3"
        and e: "s' = s3\<lparr>lastPoint := Some ?sp\<rparr>"
      by (auto simp: continueStroke_def Let_def)
    from drawLine_balance [OF d] e show ?thesis by (simp add: counts_update)
  qed
qed

text \<open>
  C3, as the code has it. The seed, the quad drawn from the front texture into the back
  framebuffer, is the first draw call of every drawPoint whose centre passes validation
  and is followed by that stamp's fan and by the presentation; a dropped drawPoint makes
  no draw call. startStroke makes no draw call besides those of its one drawPoint. So
  over startStroke and over any continueStroke that returns, the number of seeds grows
  by exactly the number of stamps: one seed per stamp, not one per stroke.
\<close>

theorem seed_per_stamp:
  "drawCalls (drawPoint s x y) = drawCalls s @
     (if invalidCoordinates s x y then []
      else [DrawQuad FrontTexture BackFramebuffer, DrawFan (currentTool s),
            DrawQuad BackTexture DefaultFramebuffer])
   \<and> drawCalls (startStroke s x y p) = drawCalls s @
     (if invalidCoordinates s x y then []
      else [DrawQuad FrontTexture BackFramebuffer, DrawFan (currentTool s),
            DrawQuad BackTexture DefaultFramebuffer])
   \<and> seedCount (startStroke s x y p) + stampCount s
       = seedCount s + stampCount (startStroke s x y p)
   \<and> (\<forall>s'. continueStroke s x y p = Some s' \<longrightarrow>
         seedCount s' + stampCount s = seedCount s + stampCount s')"
proof -
  let ?s1 = "setPressure (s\<lparr>isDrawing := True, lastPoint := Some (x, y),
                           strokePoints := [(x, y, p)]\<rparr>) p"
  have i: "invalidCoordinates ?s1 x y = invalidCoordinates s x y"
    by (simp add: invalidCoordinates_def setPressure_def)
  have a: "drawCalls (startStroke s x y p) = drawCalls s @
     (if invalidCoordinates s x y then []
      else [DrawQuad FrontTexture BackFramebuffer, DrawFan (currentTool s),
            DrawQuad BackTexture DefaultFramebuffer])"
    unfolding startStroke_def drawPoint_calls i by (simp add: setPressure_def)
  have b: "seedCount (startStroke s x y p) + stampCount s
       = seedCount s + stampCount (startStroke s x y p)"
    using drawPoint_balance [of ?s1 x y] by (simp add: startStroke_def counts_update)
  from a b drawPoint_calls continueStroke_balance show ?thesis by blast
qed

lemma strokeA_fields:
  "isDrawing strokeA" "canvas_width strokeA = 800" "canvas_height strokeA = 600"
  "currentTool strokeA = Pen" "lastPoint strokeA = Some (Fin 10, Fin 10)"
  "strokePoints strokeA = [(Fin 10, Fin 10, 1)]" "smoothingFactor strokeA = rnd (1 / 10)"
  "drawCalls strokeA = [DrawQuad BackTexture DefaultFramebuffer,
     DrawQuad FrontTexture BackFramebuffer, DrawFan Pen, DrawQuad BackTexture DefaultFramebuffer]"
  by (simp_all add: strokeA_def startStroke_def drawPoint_frame drawPoint_calls setPressure_def
      engine0_fields invalidCoordinates_def num_gt_def)

lemma strokeA_continue_calls:
  "map_option drawCalls (continueStroke strokeA (Fin 10) (Fin 10) 1) =
    Some [DrawQuad BackTexture DefaultFramebuffer,
          DrawQuad FrontTexture BackFramebuffer, DrawFan Pen, DrawQuad BackTexture DefaultFramebuffer,
          DrawQuad FrontTexture BackFramebuffer, DrawFan Pen, DrawQuad BackTexture DefaultFramebuffer,
          DrawQuad FrontTexture BackFramebuffer, DrawFan Pen, DrawQuad BackTexture DefaultFramebuffer]"
  by (simp add: continueStroke_def smoothPoint_def setPressure_def strokeA_fields Let_def
      drawLine_def num_sub_def num_max_def drawLine_body_def drawPoint_calls drawPoint_frame
      invalidCoordinates_def num_gt_def option.map_comp comp_def dbl_numerals)

theorem seed_per_stamp_witness:
  "seedCount (startStroke engine0 (Fin 10) (Fin 10) 1) = 1
   \<and> stampCount (startStroke engine0 (Fin 10) (Fin 10) 1) = 1
   \<and> map_option seedCount (continueStroke strokeA (Fin 10) (Fin 10) 1)
      = map_option stampCount (continueStroke strokeA (Fin 10) (Fin 10) 1)"
  using seed_per_stamp [of engine0 "Fin 10" "Fin 10" 1]
    seed_per_stamp [of strokeA "Fin 10" "Fin 10" 1] strokeA_continue_calls
  by (auto simp: seedCount_def stampCount_def engine0_fields strokeA_fields
      invalidCoordinates_def num_gt_def)

text \<open>
  C3 as it is worded fails: the stroke started at (10, 10) has made one seed, and after
  one continueStroke to the same point, which stamps twice, it has made three.
\<close>

theorem seed_once_counterexample:
  "seedCount strokeA = 1
   \<and> map_option seedCount (continueStroke strokeA (Fin 10) (Fin 10) 1) = Some 3"
  using strokeA_continue_calls by (auto simp: seedCount_def strokeA_fields)


subsection \<open>The pixels the vertex buffers cover\<close>






subsection \<open>What the constructor establishes and the methods keep\<close>


lemma engineInvariant_drawPoint: "engineInvariant s \<Longrightarrow> engineInvariant (drawPoint s x y)"
  by (simp add: engineInvariant_def drawPoint_frame drawPoint_blendFunc)

lemma engineInvariant_update:
  assumes "engineInvariant s"
  shows "engineInvariant (setTool s t)" and "engineInvariant (setBrushSize s n)"
    and "engineInvariant (setPressure s p)" and "engineInvariant (endStroke s)"
    and "engineInvariant (s\<lparr>lastPoint := lp\<rparr>)" and "engineInvariant (s\<lparr>strokePoints := sp\<rparr>)"
    and "engineInvariant (s\<lparr>isDrawing := b\<rparr>)"
  using assms
  by (simp_all add: engineInvariant_def setTool_def setBrushSize_def setPressure_def
      endStroke_def swapBuffers_def)

lemma engineInvariant_startStroke:
  "engineInvariant s \<Longrightarrow> engineInvariant (startStroke s x y p)"
  unfolding startStroke_def
  by (intro engineInvariant_drawPoint engineInvariant_update)
    (simp add: engineInvariant_def)

lemma engineInvariant_fold:
  "engineInvariant s \<Longrightarrow> engineInvariant (fold (drawLine_body x1 y1 x2 y2 st) is s)"
  by (induction "is" arbitrary: s) (simp_all add: drawLine_body_def Let_def engineInvariant_drawPoint)

lemma engineInvariant_drawLine:
  "engineInvariant s \<Longrightarrow> drawLine s x1 y1 x2 y2 = Some s' \<Longrightarrow> engineInvariant s'"
  by (auto simp: drawLine_def Let_def engineInvariant_fold simp del: upt_Suc
      split: number.splits if_splits)

lemma engineInvariant_continueStroke:
  assumes "engineInvariant s" and "continueStroke s x y p = Some s'"
  shows "engineInvariant s'"
proof (cases "isDrawing s")
  case False
  with assms show ?thesis by (simp add: continueStroke_def)
next
  case True
  let ?s1 = "setPressure s p"
  let ?sp = "smoothPoint ?s1 x y"
  let ?s2 = "?s1\<lparr>strokePoints := strokePoints ?s1 @ [(fst ?sp, snd ?sp, p)]\<rparr>"
  have i2: "engineInvariant ?s2" using assms(1) by (intro engineInvariant_update)
  show ?thesis
  proof (cases "lastPoint ?s2")
    case None
    with True assms(2) have "s' = ?s2\<lparr>lastPoint := Some ?sp\<rparr>"
      by (simp add: continueStroke_def Let_def)
    then show ?thesis using i2 by (simp add: engineInvariant_update)
  next
    case (Some lp)
    with True assms(2) obtain s3
      where d: "drawLine ?s2 (fst lp) (snd lp) (fst ?sp) (snd ?sp) = Some s3"
        and e: "s' = s3\<lparr>lastPoint := Some ?sp\<rparr>"
      by (auto simp: continueStroke_def Let_def)
    from engineInvariant_drawLine [OF i2 d] e show ?thesis
      by (simp add: engineInvariant_update)
  qed
qed




subsection \<open>Opacity under a stamp\<close>



subsection \<open>Commit and seed\<close>

text \<open>
  The seed does not copy. It writes white to the pixels of the quad and leaves the others
  of the back buffer alone, so after commit, seed and commit the front buffer is the
  front buffer from before the first commit, white on the pixels of the quad, and not
  the image that was committed.
\<close>

lemma seed_after_commit:
  assumes "blendFunc s = (SRC_ALPHA, ONE_MINUS_SRC_ALPHA)"
  shows "frontTexture (endStroke s) = backTexture s"
    and "frontTexture (endStroke (seeded (endStroke s))) q =
           (if quadBuffer s q then Vec4 1 1 1 1 else frontTexture s q)"
  using assms
  by (simp_all add: endStroke_def swapBuffers_def seeded_frame blend_white)




subsection \<open>Smoothing\<close>

lemma fold_body_strokePoints:
  "strokePoints (fold (drawLine_body x1 y1 x2 y2 st) is s) = strokePoints s"
  by (induction "is" arbitrary: s) (simp_all add: drawLine_body_def Let_def drawPoint_frame)

lemma num_max_Fin: "num_max (Fin u) (Fin v) = Fin (max u v)"
  by (simp add: num_max_def max_def)

lemma rnd_bounds:
  assumes "0 \<le> v" and "v \<le> 2 ^ k"
  shows "0 \<le> rnd v" and "rnd v \<le> 2 ^ k"
proof -
  show "0 \<le> rnd v" using assms(1) by (rule rnd_nonneg)
  have "\<bar>v\<bar> \<le> 2 ^ k" using assms by simp
  then have "\<bar>rnd v\<bar> \<le> 2 ^ k" by (rule rnd_abs_le)
  then show "rnd v \<le> 2 ^ k" by simp
qed

text \<open>
  Between points whose coordinates are at most \<open>2 ^ 32\<close> in size the step count of
  drawLine is a finite number from 1 to \<open>2 ^ 33\<close>.
\<close>

lemma steps_bounded:
  assumes "\<bar>a\<bar> \<le> 2 ^ 32" and "\<bar>b\<bar> \<le> 2 ^ 32" and "\<bar>c\<bar> \<le> 2 ^ 32" and "\<bar>d\<bar> \<le> 2 ^ 32"
  shows "\<exists>n. num_max (Fin 1) (num_floor (num_div
           (num_sqrt (num_add (num_mul (num_sub (Fin c) (Fin a)) (num_sub (Fin c) (Fin a)))
                              (num_mul (num_sub (Fin d) (Fin b)) (num_sub (Fin d) (Fin b)))))
           (Fin 2))) = Fin n \<and> 1 \<le> n \<and> n \<le> 2 ^ 33"
proof -
  define da where "da = rnd (c - a)"
  define db where "db = rnd (d - b)"
  define qa where "qa = rnd (da * da)"
  define qb where "qb = rnd (db * db)"
  define sm where "sm = rnd (qa + qb)"
  define dt where "dt = rnd (sqrt sm)"
  define hv where "hv = rnd (dt / 2)"
  have ca: "\<bar>c - a\<bar> \<le> 2 ^ 33" and cb: "\<bar>d - b\<bar> \<le> 2 ^ 33" using assms by simp_all
  have 1: "dbl (c - a) = Fin da" "dbl (d - b) = Fin db"
    unfolding da_def db_def using ca cb by (simp_all add: dbl_Fin [where k = 33])
  have da: "\<bar>da\<bar> \<le> 2 ^ 33" unfolding da_def using ca by (rule rnd_abs_le)
  have db: "\<bar>db\<bar> \<le> 2 ^ 33" unfolding db_def using cb by (rule rnd_abs_le)
  have "\<bar>da\<bar> * \<bar>da\<bar> \<le> 2 ^ 33 * 2 ^ 33" using da by (intro mult_mono) simp_all
  then have sa: "0 \<le> da * da" "da * da \<le> 2 ^ 66" by (simp_all add: abs_mult_self_eq)
  have "\<bar>db\<bar> * \<bar>db\<bar> \<le> 2 ^ 33 * 2 ^ 33" using db by (intro mult_mono) simp_all
  then have sb: "0 \<le> db * db" "db * db \<le> 2 ^ 66" by (simp_all add: abs_mult_self_eq)
  have qa: "0 \<le> qa" "qa \<le> 2 ^ 66" unfolding qa_def using sa by (rule rnd_bounds)+
  have qb: "0 \<le> qb" "qb \<le> 2 ^ 66" unfolding qb_def using sb by (rule rnd_bounds)+
  have 2: "dbl (da * da) = Fin qa" "dbl (db * db) = Fin qb"
    unfolding qa_def qb_def using sa sb by (simp_all add: dbl_Fin [where k = 66])
  have s: "0 \<le> qa + qb" "qa + qb \<le> 2 ^ 67" using qa qb by simp_all
  have sm: "0 \<le> sm" "sm \<le> 2 ^ 67" unfolding sm_def using s by (rule rnd_bounds)+
  have 3: "dbl (qa + qb) = Fin sm"
    unfolding sm_def using s by (simp add: dbl_Fin [where k = 67])
  have "sqrt sm \<le> sqrt ((2 ^ 34)\<^sup>2)" using sm by (intro real_sqrt_le_mono) simp
  then have r: "0 \<le> sqrt sm" "sqrt sm \<le> 2 ^ 34" using sm by simp_all
  have dt: "0 \<le> dt" "dt \<le> 2 ^ 34" unfolding dt_def using r by (rule rnd_bounds)+
  have 4: "dbl (sqrt sm) = Fin dt"
    unfolding dt_def using r by (simp add: dbl_Fin [where k = 34])
  have h: "0 \<le> dt / 2" "dt / 2 \<le> 2 ^ 33" using dt by simp_all
  have hv: "0 \<le> hv" "hv \<le> 2 ^ 33" unfolding hv_def using h by (rule rnd_bounds)+
  have 5: "dbl (dt / 2) = Fin hv"
    unfolding hv_def using h by (simp add: dbl_Fin [where k = 33])
  have "real_of_int \<lfloor>hv\<rfloor> \<le> hv" by simp
  then have f: "real_of_int \<lfloor>hv\<rfloor> \<le> 2 ^ 33" using hv(2) by linarith
  have "num_max (Fin 1) (num_floor (num_div
           (num_sqrt (num_add (num_mul (num_sub (Fin c) (Fin a)) (num_sub (Fin c) (Fin a)))
                              (num_mul (num_sub (Fin d) (Fin b)) (num_sub (Fin d) (Fin b)))))
           (Fin 2))) = Fin (max 1 (real_of_int \<lfloor>hv\<rfloor>))"
    using sm(1) by (simp add: num_sub_Fin 1 2 3 4 5 num_max_Fin not_less)
  moreover have "1 \<le> max 1 (real_of_int \<lfloor>hv\<rfloor>)" by simp
  moreover have "max 1 (real_of_int \<lfloor>hv\<rfloor>) \<le> 2 ^ 33" using f by simp
  ultimately show ?thesis by blast
qed

text \<open>Between such points drawLine returns, and leaves the recorded points alone.\<close>

lemma drawLine_bounded:
  assumes "\<bar>a\<bar> \<le> 2 ^ 32" and "\<bar>b\<bar> \<le> 2 ^ 32" and "\<bar>c\<bar> \<le> 2 ^ 32" and "\<bar>d\<bar> \<le> 2 ^ 32"
  shows "\<exists>s'. drawLine s (Fin a) (Fin b) (Fin c) (Fin d) = Some s'
           \<and> strokePoints s' = strokePoints s"
proof -
  obtain n where st: "num_max (Fin 1) (num_floor (num_div
           (num_sqrt (num_add (num_mul (num_sub (Fin c) (Fin a)) (num_sub (Fin c) (Fin a)))
                              (num_mul (num_sub (Fin d) (Fin b)) (num_sub (Fin d) (Fin b)))))
           (Fin 2))) = Fin n" and n: "1 \<le> n" "n \<le> 2 ^ 33"
    using steps_bounded [OF assms] by blast
  have "n < 2 ^ 53" using n(2) by simp
  then have "drawLine s (Fin a) (Fin b) (Fin c) (Fin d) =
      Some (fold (drawLine_body (Fin a) (Fin b) (Fin c) (Fin d) (Fin n)) [0 ..< Suc (nat \<lfloor>n\<rfloor>)] s)"
    unfolding drawLine_def Let_def st using n(1) by (simp del: upt_Suc)
  then show ?thesis by (simp add: fold_body_strokePoints del: upt_Suc)
qed

text \<open>
  Towards an infinite end point the step count is infinite and the loop of drawLine does
  not end, and so it is towards a finite end point so far away that the square of the
  distance overflows; towards a NaN end point the loop does not run.
\<close>

lemma square_dbl: "num_mul (dbl v) (dbl v) = PosInf \<or> (\<exists>r. num_mul (dbl v) (dbl v) = Fin r)"
proof -
  have "dbl (r * r) = PosInf \<or> (\<exists>q. dbl (r * r) = Fin q)" for r
  proof -
    have "0 \<le> rnd (r * r)" by (intro rnd_nonneg) simp
    then have "\<not> rnd (r * r) \<le> - (2 ^ 1024)" by simp
    then show ?thesis by (simp add: dbl_def Let_def)
  qed
  then show ?thesis by (cases "dbl v") (auto simp: dbl_def Let_def split: if_splits)
qed

lemma drawLine_infinite: "drawLine s (Fin a) (Fin b) PosInf (Fin d) = None"
proof -
  have "num_add PosInf (num_mul (dbl (d - b)) (dbl (d - b))) = PosInf"
    using square_dbl [of "d - b"] by auto
  then show ?thesis by (simp add: drawLine_def num_sub_Fin num_sub_def num_max_def)
qed

lemma drawLine_NaN: "drawLine s (Fin a) (Fin b) NaN (Fin d) = Some s"
  by (simp add: drawLine_def num_sub_def num_max_def)

lemma drawLine_overflow: "drawLine s (Fin 0) (Fin 0) (Fin (2 ^ 600)) (Fin 0) = None"
proof -
  define B :: real where "B = 2 ^ 600"
  have a: "rnd B = B" unfolding B_def using rnd_fix [of "2 ^ 600" 1 600] by simp
  have "\<bar>B\<bar> \<le> 2 ^ 600" by (simp add: B_def)
  then have c: "dbl B = Fin B" using dbl_Fin [of B 600] by (simp add: a)
  have "B * B = 2 ^ 1200" by (simp add: B_def flip: power_add)
  moreover have "rnd (2 ^ 1200) = 2 ^ 1200" using rnd_fix [of "2 ^ 1200" 1 1200] by simp
  ultimately have "rnd (B * B) = 2 ^ 1200" by (simp only:)
  then have b: "dbl (B * B) = PosInf" by (simp add: dbl_def)
  have "drawLine s (Fin 0) (Fin 0) (Fin B) (Fin 0) = None"
    by (simp add: drawLine_def num_sub_Fin c b dbl_numerals num_max_def)
  then show ?thesis by (simp only: B_def)
qed

lemma smooth_bounded:
  assumes "\<bar>x\<bar> \<le> 2 ^ 30" and "\<bar>px\<bar> \<le> 2 ^ 30"
  shows "num_add (Fin px) (num_mul (num_sub (Fin x) (Fin px)) (Fin (rnd (1 / 10))))
           = Fin (rnd (px + rnd (rnd (x - px) * rnd (1 / 10))))"
    and "\<bar>rnd (px + rnd (rnd (x - px) * rnd (1 / 10)))\<bar> \<le> 2 ^ 32"
proof -
  define u where "u = rnd (x - px)"
  define v where "v = rnd (u * rnd (1 / 10))"
  have t: "\<bar>rnd (1 / 10)\<bar> \<le> 1" by (simp add: rnd_tenth)
  have d: "\<bar>x - px\<bar> \<le> 2 ^ 31" using assms by simp
  have 1: "dbl (x - px) = Fin u" unfolding u_def using d by (simp add: dbl_Fin [where k = 31])
  have u: "\<bar>u\<bar> \<le> 2 ^ 31" unfolding u_def using d by (rule rnd_abs_le)
  have "\<bar>u\<bar> * \<bar>rnd (1 / 10)\<bar> \<le> 2 ^ 31 * 1" using u t by (intro mult_mono) simp_all
  then have m: "\<bar>u * rnd (1 / 10)\<bar> \<le> 2 ^ 31" by (simp add: abs_mult)
  have 2: "dbl (u * rnd (1 / 10)) = Fin v"
    unfolding v_def using m by (simp add: dbl_Fin [where k = 31])
  have v: "\<bar>v\<bar> \<le> 2 ^ 31" unfolding v_def using m by (rule rnd_abs_le)
  have s: "\<bar>px + v\<bar> \<le> 2 ^ 32" using assms(2) v by simp
  have 3: "dbl (px + v) = Fin (rnd (px + v))" using s by (simp add: dbl_Fin [where k = 32])
  show "num_add (Fin px) (num_mul (num_sub (Fin x) (Fin px)) (Fin (rnd (1 / 10))))
           = Fin (rnd (px + rnd (rnd (x - px) * rnd (1 / 10))))"
    by (simp add: num_sub_Fin 1 2 3 flip: u_def v_def)
  show "\<bar>rnd (px + rnd (rnd (x - px) * rnd (1 / 10)))\<bar> \<le> 2 ^ 32"
    using rnd_abs_le [OF s] by (simp add: u_def v_def)
qed

lemma continueStroke_records:
  assumes "isDrawing s" and "smoothingFactor s = rnd (1 / 10)"
    and "lastPoint s = Some (Fin lx0, Fin ly0)"
    and "strokePoints s \<noteq> []" and "last (strokePoints s) = (Fin px, Fin py, pp)"
    and "\<bar>x\<bar> \<le> 2 ^ 30" and "\<bar>y\<bar> \<le> 2 ^ 30" and "\<bar>px\<bar> \<le> 2 ^ 30" and "\<bar>py\<bar> \<le> 2 ^ 30"
    and "\<bar>lx0\<bar> \<le> 2 ^ 30" and "\<bar>ly0\<bar> \<le> 2 ^ 30"
    and "sx = (if length (strokePoints s) < 2 then x
               else rnd (px + rnd (rnd (x - px) * rnd (1 / 10))))"
    and "sy = (if length (strokePoints s) < 2 then y
               else rnd (py + rnd (rnd (y - py) * rnd (1 / 10))))"
  shows "\<exists>s3. drawLine ((setPressure s p)\<lparr>strokePoints := strokePoints s @ [(Fin sx, Fin sy, p)]\<rparr>)
                 (Fin lx0) (Fin ly0) (Fin sx) (Fin sy) = Some s3
            \<and> continueStroke s (Fin x) (Fin y) p = Some (s3\<lparr>lastPoint := Some (Fin sx, Fin sy)\<rparr>)
            \<and> strokePoints s3 = strokePoints s @ [(Fin sx, Fin sy, p)]"
proof -
  let ?s1 = "setPressure s p"
  have sp: "smoothPoint ?s1 (Fin x) (Fin y) = (Fin sx, Fin sy)"
    using assms(2,5,12,13) smooth_bounded(1) [OF assms(6) assms(8)]
      smooth_bounded(1) [OF assms(7) assms(9)]
    by (simp add: smoothPoint_def setPressure_def Let_def)
  have bsx: "\<bar>sx\<bar> \<le> 2 ^ 32"
    using assms(6,12) smooth_bounded(2) [OF assms(6) assms(8)] by (simp split: if_splits)
  have bsy: "\<bar>sy\<bar> \<le> 2 ^ 32"
    using assms(7,13) smooth_bounded(2) [OF assms(7) assms(9)] by (simp split: if_splits)
  have bl: "\<bar>lx0\<bar> \<le> 2 ^ 32" "\<bar>ly0\<bar> \<le> 2 ^ 32" using assms(10,11) by simp_all
  let ?s2 = "?s1\<lparr>strokePoints := strokePoints s @ [(Fin sx, Fin sy, p)]\<rparr>"
  have lp: "lastPoint ?s2 = Some (Fin lx0, Fin ly0)"
    using assms(3) by (simp add: setPressure_def)
  obtain s3 where d: "drawLine ?s2 (Fin lx0) (Fin ly0) (Fin sx) (Fin sy) = Some s3"
    and f: "strokePoints s3 = strokePoints ?s2"
    using drawLine_bounded [OF bl bsx bsy] by blast
  have c: "continueStroke s (Fin x) (Fin y) p = Some (s3\<lparr>lastPoint := Some (Fin sx, Fin sy)\<rparr>)"
    using assms(1) lp d sp by (simp add: continueStroke_def Let_def setPressure_def)
  have r: "strokePoints s3 = strokePoints s @ [(Fin sx, Fin sy, p)]"
    using f by simp
  from d c r show ?thesis by blast
qed


text \<open>
  C8, as the code has it, for coordinates of at most \<open>2 ^ 30\<close> in size. In a stroke in
  progress (its last point and its recorded points set by startStroke, the smoothing
  factor the 0.1 of the constructor) continueStroke returns. The point it records, with
  the raw pressure, and keeps as last point is the previous recorded point moved a tenth
  of the way to the raw point, \<open>prev + (raw - prev) * 0.1\<close> with every operation rounded
  to a double, when the stroke already has two recorded points or more, and the raw point
  itself when it has fewer. That point is the end point drawLine is called with, from
  the last point of the stroke; drawLine returns, and continueStroke returns what
  drawLine has made of the engine, with the new last point.
\<close>

theorem continueStroke_smoothing:
  assumes "isDrawing s" and "smoothingFactor s = rnd (1 / 10)"
    and "lastPoint s = Some (Fin lx0, Fin ly0)"
    and "strokePoints s \<noteq> []" and "last (strokePoints s) = (Fin px, Fin py, pp)"
    and "\<bar>x\<bar> \<le> 2 ^ 30" and "\<bar>y\<bar> \<le> 2 ^ 30" and "\<bar>px\<bar> \<le> 2 ^ 30" and "\<bar>py\<bar> \<le> 2 ^ 30"
    and "\<bar>lx0\<bar> \<le> 2 ^ 30" and "\<bar>ly0\<bar> \<le> 2 ^ 30"
    and "sx = (if length (strokePoints s) < 2 then x
               else rnd (px + rnd (rnd (x - px) * rnd (1 / 10))))"
    and "sy = (if length (strokePoints s) < 2 then y
               else rnd (py + rnd (rnd (y - py) * rnd (1 / 10))))"
  shows "\<exists>s3. drawLine ((setPressure s p)\<lparr>strokePoints := strokePoints s @ [(Fin sx, Fin sy, p)]\<rparr>)
                 (Fin lx0) (Fin ly0) (Fin sx) (Fin sy) = Some s3
            \<and> continueStroke s (Fin x) (Fin y) p = Some (s3\<lparr>lastPoint := Some (Fin sx, Fin sy)\<rparr>)
            \<and> strokePoints s3 = strokePoints s @ [(Fin sx, Fin sy, p)]"
  using assms by (rule continueStroke_records)

lemma twoPoints_fields:
  "isDrawing twoPoints" "smoothingFactor twoPoints = rnd (1 / 10)"
  "lastPoint twoPoints = Some (Fin 20, Fin 10)"
  "strokePoints twoPoints = [(Fin 10, Fin 10, 1), (Fin 20, Fin 10, 1)]"
  by (simp_all add: twoPoints_def strokeA_fields)

text \<open>Ten times the double 0.1 rounds to 1.\<close>

lemma rnd_ten_tenths: "rnd (10 * (3602879701896397 / 2 ^ 55)) = 1"
  by (simp add: rnd_def expo.simps rne_def power_int_def power_one_over Let_def)

lemma smooth_values:
  "rnd (20 + rnd (rnd 10 * rnd (1 / 10))) = 21"
  "rnd (10 + rnd (rnd 10 * rnd (1 / 10))) = 11"
  "rnd (10 + rnd (rnd 0 * rnd (1 / 10))) = 10"
proof -
  have a: "rnd (rnd 10 * rnd (1 / 10)) = 1"
    by (simp only: rnd_numerals rnd_tenth rnd_ten_tenths)
  have b: "rnd (rnd 0 * rnd (1 / 10)) = 0"
    by (simp only: rnd_numerals mult_zero_left)
  have c: "rnd 21 = 21" "rnd 11 = 11" using rnd_of_int [of 21] rnd_of_int [of 11] by simp_all
  show "rnd (20 + rnd (rnd 10 * rnd (1 / 10))) = 21" unfolding a using c by simp
  show "rnd (10 + rnd (rnd 10 * rnd (1 / 10))) = 11" unfolding a using c by simp
  show "rnd (10 + rnd (rnd 0 * rnd (1 / 10))) = 10" unfolding b by (simp add: rnd_numerals)
qed

theorem continueStroke_smoothing_witness:
  "map_option strokePoints (continueStroke twoPoints (Fin 30) (Fin 10) 1)
     = Some [(Fin 10, Fin 10, 1), (Fin 20, Fin 10, 1), (Fin 21, Fin 10, 1)]
   \<and> map_option lastPoint (continueStroke twoPoints (Fin 30) (Fin 10) 1)
     = Some (Some (Fin 21, Fin 10))"
  using continueStroke_smoothing [where s = twoPoints and ?lx0.0 = 20 and ?ly0.0 = 10
      and px = 20 and py = 10 and pp = 1 and x = 30 and y = 10 and sx = 21 and sy = 10
      and p = 1]
  by (auto simp: twoPoints_fields smooth_values)

text \<open>
  C8 as it is worded fails on the first sample after startStroke: the stroke begun at
  (10, 10) records the raw point (20, 10), not the blended point (11, 10).
\<close>

theorem first_sample_counterexample:
  "map_option strokePoints (continueStroke strokeA (Fin 20) (Fin 10) 1)
     = Some [(Fin 10, Fin 10, 1), (Fin 20, Fin 10, 1)]
   \<and> num_add (Fin 10) (num_mul (num_sub (Fin 20) (Fin 10)) (Fin (smoothingFactor strokeA)))
       = Fin 11
   \<and> (Fin 20, Fin 10) \<noteq> (Fin (10 + (20 - 10) * (1 / 10)), Fin (10 + (10 - 10) * (1 / 10)))"
proof -
  have a: "map_option strokePoints (continueStroke strokeA (Fin 20) (Fin 10) 1)
     = Some [(Fin 10, Fin 10, 1), (Fin 20, Fin 10, 1)]"
    using continueStroke_records [where s = strokeA and ?lx0.0 = 10 and ?ly0.0 = 10
      and px = 10 and py = 10 and pp = 1 and x = 20 and y = 10 and sx = 20 and sy = 10
      and p = 1]
    by (auto simp: strokeA_fields)
  have b: "num_add (Fin 10) (num_mul (num_sub (Fin 20) (Fin 10)) (Fin (smoothingFactor strokeA)))
       = Fin 11"
    using smooth_bounded(1) [of 20 10] by (simp add: strokeA_fields smooth_values)
  show ?thesis using a b by simp
qed

section \<open>Properties of the coordinate mapping\<close>

lemma mapLandmark_unit:
  assumes "0 \<le> lx p" and "lx p \<le> 1" and "0 \<le> ly p" and "ly p \<le> 1"
    and "\<bar>w\<bar> \<le> 2 ^ 1000" and "\<bar>h\<bar> \<le> 2 ^ 1000"
  shows "mapLandmark p w h = (Fin (rnd (rnd (1 - lx p) * w)), Fin (rnd (ly p * h)))"
proof -
  have a: "\<bar>1 - lx p\<bar> \<le> 2 ^ 0" using assms(1,2) by simp
  have s: "dbl (1 - lx p) = Fin (rnd (1 - lx p))" using a by (rule dbl_Fin) simp
  have r: "\<bar>rnd (1 - lx p)\<bar> \<le> 1" using rnd_abs_le [OF a] by simp
  have "\<bar>rnd (1 - lx p) * w\<bar> \<le> 1 * 2 ^ 1000"
    unfolding abs_mult using r assms(5) by (intro mult_mono) simp_all
  then have m: "dbl (rnd (1 - lx p) * w) = Fin (rnd (rnd (1 - lx p) * w))"
    by (intro dbl_Fin [where k = 1000]) simp_all
  have "\<bar>ly p * h\<bar> \<le> 1 * 2 ^ 1000"
    unfolding abs_mult using assms(3,4,6) by (intro mult_mono) simp_all
  then have n: "dbl (ly p * h) = Fin (rnd (ly p * h))"
    by (intro dbl_Fin [where k = 1000]) simp_all
  show ?thesis by (simp add: mapLandmark_def num_sub_Fin s m n)
qed

lemma tenth_lx: "lx tenth = 3602879701896397 / 2 ^ 55"
  by (simp add: tenth_def rnd_tenth)

lemma tenthMirrored_lx: "lx tenthMirrored = 8106479329266893 / 2 ^ 53"
proof -
  have "lx tenthMirrored = rnd (1 - rnd (1 / 10))" by (simp add: tenthMirrored_def)
  also have "\<dots> = rnd (1 - 3602879701896397 / 2 ^ 55)" by (simp only: rnd_tenth)
  also have "\<dots> = 8106479329266893 / 2 ^ 53" by (rule rnd_nine_tenths)
  finally show ?thesis .
qed

lemma tenthMirrored_mapped:
  "fst (mapLandmark tenthMirrored 1 1) = Fin (900719925474099 / 2 ^ 53)"
proof -
  have b: "\<bar>900719925474099 / 2 ^ 53 :: real\<bar> \<le> 2 ^ 0" by simp
  have a: "\<bar>1 - 8106479329266893 / 2 ^ 53 :: real\<bar> \<le> 2 ^ 0" by simp
  have "dbl (1 - 8106479329266893 / 2 ^ 53) = Fin (rnd (1 - 8106479329266893 / 2 ^ 53))"
    using a by (rule dbl_Fin) simp
  then have s: "dbl (1 - 8106479329266893 / 2 ^ 53) = Fin (900719925474099 / 2 ^ 53)"
    by (simp only: rnd_mirror_back)
  have "dbl (900719925474099 / 2 ^ 53) = Fin (rnd (900719925474099 / 2 ^ 53))"
    using b by (rule dbl_Fin) simp
  then have m: "dbl (900719925474099 / 2 ^ 53) = Fin (900719925474099 / 2 ^ 53)"
    by (simp only: rnd_mirror_back')
  have "fst (mapLandmark tenthMirrored 1 1)
          = num_mul (num_sub (Fin 1) (Fin (lx tenthMirrored))) (Fin 1)"
    by (simp add: mapLandmark_def)
  also have "\<dots> = num_mul (dbl (1 - 8106479329266893 / 2 ^ 53)) (Fin 1)"
    by (simp only: tenthMirrored_lx num_sub_Fin)
  also have "\<dots> = num_mul (Fin (900719925474099 / 2 ^ 53)) (Fin 1)" by (simp only: s)
  also have "\<dots> = dbl (900719925474099 / 2 ^ 53 * 1)" by (simp only: num_mul.simps)
  also have "\<dots> = dbl (900719925474099 / 2 ^ 53)" by (simp only: mult_1_right)
  also have "\<dots> = Fin (900719925474099 / 2 ^ 53)" by (rule m)
  finally show ?thesis .
qed

text \<open>
  C7 as it is worded fails in the arithmetic of the code. For x = 0.1 the mirrored input
  is 1 - 0.1 = 0.9, and mapping it against a rectangle of width 1 gives
  1 - 0.9 = 0.09999999999999998, which is not 0.1.
\<close>

theorem mirror_twice_counterexample:
  "lx tenth = 3602879701896397 / 2 ^ 55
   \<and> lx tenthMirrored = 8106479329266893 / 2 ^ 53
   \<and> fst (mapLandmark tenthMirrored 1 1) = Fin (900719925474099 / 2 ^ 53)
   \<and> fst (mapLandmark tenthMirrored 1 1) \<noteq> Fin (lx tenth)"
  by (simp add: tenth_lx tenthMirrored_lx tenthMirrored_mapped)

text \<open>
  C7, as the code has it. For a landmark in the unit square and a rectangle whose sides
  are at most \<open>2 ^ 1000\<close>, the mapper returns the finite numbers
  \<open>((1 - x) * width, y * height)\<close>, the subtraction and each product rounded to a double.
  When x is a double and the subtraction \<open>1 - x\<close> is exact, which it is for every double
  x from 1/2 to 1, mapping the mirrored input \<open>1 - x\<close> gives \<open>x * width\<close> rounded, and x
  itself for width 1.
\<close>

theorem mapLandmark_mirror:
  assumes "0 \<le> lx p" and "lx p \<le> 1" and "0 \<le> ly p" and "ly p \<le> 1"
    and "\<bar>w\<bar> \<le> 2 ^ 1000" and "\<bar>h\<bar> \<le> 2 ^ 1000"
  shows "mapLandmark p w h = (Fin (rnd (rnd (1 - lx p) * w)), Fin (rnd (ly p * h)))
     \<and> (is_double (lx p) \<and> 1 / 2 \<le> lx p \<longrightarrow> rnd (1 - lx p) = 1 - lx p)
     \<and> (is_double (lx p) \<and> rnd (1 - lx p) = 1 - lx p \<longrightarrow>
          mapLandmark (p\<lparr>lx := rnd (1 - lx p)\<rparr>) w h
            = (Fin (rnd (lx p * w)), Fin (rnd (ly p * h)))
          \<and> fst (mapLandmark (p\<lparr>lx := rnd (1 - lx p)\<rparr>) 1 h) = Fin (lx p))"
proof (intro conjI impI)
  show "mapLandmark p w h = (Fin (rnd (rnd (1 - lx p) * w)), Fin (rnd (ly p * h)))"
    using assms by (rule mapLandmark_unit)
next
  assume "is_double (lx p) \<and> 1 / 2 \<le> lx p"
  then show "rnd (1 - lx p) = 1 - lx p" using assms(2) by (intro mirror_exact) simp_all
next
  assume a: "is_double (lx p) \<and> rnd (1 - lx p) = 1 - lx p"
  let ?q = "p\<lparr>lx := rnd (1 - lx p)\<rparr>"
  have q: "lx ?q = 1 - lx p" "ly ?q = ly p" using a by simp_all
  have d: "rnd (lx p) = lx p" using a by (simp add: is_double_def)
  have "mapLandmark ?q w h = (Fin (rnd (rnd (1 - lx ?q) * w)), Fin (rnd (ly ?q * h)))"
  proof (rule mapLandmark_unit)
    show "0 \<le> lx ?q" "lx ?q \<le> 1" using assms(1,2) by (simp_all add: q)
    show "0 \<le> ly ?q" "ly ?q \<le> 1" using assms(3,4) by simp_all
  qed (rule assms(5), rule assms(6))
  then show "mapLandmark ?q w h = (Fin (rnd (lx p * w)), Fin (rnd (ly p * h)))"
    unfolding q by (simp add: d)
next
  assume a: "is_double (lx p) \<and> rnd (1 - lx p) = 1 - lx p"
  let ?q = "p\<lparr>lx := rnd (1 - lx p)\<rparr>"
  have q: "lx ?q = 1 - lx p" "ly ?q = ly p" using a by simp_all
  have d: "rnd (lx p) = lx p" using a by (simp add: is_double_def)
  have "mapLandmark ?q 1 h = (Fin (rnd (rnd (1 - lx ?q) * 1)), Fin (rnd (ly ?q * h)))"
  proof (rule mapLandmark_unit)
    show "0 \<le> lx ?q" "lx ?q \<le> 1" using assms(1,2) by (simp_all add: q)
    show "0 \<le> ly ?q" "ly ?q \<le> 1" using assms(3,4) by simp_all
    show "\<bar>1 :: real\<bar> \<le> 2 ^ 1000" by simp
  qed (rule assms(6))
  then show "fst (mapLandmark ?q 1 h) = Fin (lx p)"
    unfolding q by (simp add: d)
qed

lemma rnd_quarters: "rnd (1 / 4) = 1 / 4" "rnd (3 / 4) = 3 / 4" "rnd 200 = 200"
  "rnd 300 = 300" "rnd 600 = 600"
  using rnd_fix [of "1 / 4" 1 "- 2"] rnd_fix [of "3 / 4" 3 "- 2"] rnd_of_int [of 200]
    rnd_of_int [of 300] rnd_of_int [of 600]
  by (simp_all add: power_int_minus_divide)

theorem mapLandmark_mirror_witness:
  "mapLandmark \<lparr>lx = 3 / 4, ly = 1 / 2\<rparr> 800 600 = (Fin 200, Fin 300)
   \<and> mapLandmark \<lparr>lx = 1 / 4, ly = 1 / 2\<rparr> 800 600 = (Fin 600, Fin 300)
   \<and> fst (mapLandmark \<lparr>lx = 1 / 4, ly = 1 / 2\<rparr> 1 600) = Fin (3 / 4)"
  using mapLandmark_mirror [of "\<lparr>lx = 3 / 4, ly = 1 / 2\<rparr>" 800 600]
  by (simp add: is_double_def rnd_quarters)

end
